theory Spec2Isabelle
  imports Main
begin

section \<open>The external system\<close>

text \<open>
  The managers wrap three command-line tools (\<open>zfs\<close>, \<open>borg\<close>, \<open>docker compose\<close>) and
  touch the file system and the clock. None of these is part of the repository, so the
  model takes them as a parameter: a \<open>system\<close> over a world type \<open>'w\<close>. Running a
  command yields its exit code and its output lines and a new world.

  What the program does to the world is recorded, in order, in a trace of events. The
  exit code of every command is recorded with it. Of the log output only the messages of
  \<open>BackupOrchestrator.backup_all\<close> that do not format an exception are recorded.
\<close>

type_synonym env = "(string \<times> string) list"

datatype cmd = Cmd (argv: "string list") (cenv: "env option") (fg: bool)

datatype level = INFO | WARNING | ERROR | CRITICAL

datatype event =
    Exec cmd int
  | Unlink string bool
  | Mkdir string bool
  | Log level string

datatype exn =
    ErrorReturnCode cmd int
  | RuntimeError string
  | FileExistsError string
  | ValueError string
  | OSError string

record 'w system =
  sh_run :: "cmd \<Rightarrow> 'w \<Rightarrow> (int \<times> string list) \<times> 'w"
  fs_exists :: "string \<Rightarrow> 'w \<Rightarrow> bool"
  fs_unlink :: "string \<Rightarrow> 'w \<Rightarrow> bool \<times> 'w"
  fs_mkdir :: "string \<Rightarrow> 'w \<Rightarrow> bool \<times> 'w"
  fs_compose_files :: "'w \<Rightarrow> string list"
  clock_now :: "'w \<Rightarrow> string \<times> 'w"

text \<open>
  The program state: a store of dictionary objects (the environment dictionaries are
  shared by reference in the source, so they live at addresses), the world, and the trace.
\<close>

record 'w state =
  heap :: "env list"
  world :: 'w
  trace :: "event list"

type_synonym ('w, 'a) M = "'w state \<Rightarrow> (exn + 'a) \<times> 'w state"

definition ret :: "'a \<Rightarrow> ('w, 'a) M" where
  "ret x s = (Inr x, s)"

definition raise :: "exn \<Rightarrow> ('w, 'a) M" where
  "raise e s = (Inl e, s)"

definition bind :: "('w, 'a) M \<Rightarrow> ('a \<Rightarrow> ('w, 'b) M) \<Rightarrow> ('w, 'b) M" where
  "bind m f s = (case m s of (Inl e, s') \<Rightarrow> (Inl e, s') | (Inr x, s') \<Rightarrow> f x s')"

definition seq :: "('w, 'a) M \<Rightarrow> ('w, 'b) M \<Rightarrow> ('w, 'b) M" where
  "seq m k = bind m (\<lambda>_. k)"

text \<open>\<open>try: m except Exception as e: h e\<close>\<close>

definition try_except :: "('w, 'a) M \<Rightarrow> (exn \<Rightarrow> ('w, 'a) M) \<Rightarrow> ('w, 'a) M" where
  "try_except m h s = (case m s of (Inl e, s') \<Rightarrow> h e s' | (Inr x, s') \<Rightarrow> (Inr x, s'))"

definition emit :: "event \<Rightarrow> ('w, unit) M" where
  "emit ev s = (Inr (), s\<lparr>trace := trace s @ [ev]\<rparr>)"

definition log :: "level \<Rightarrow> string \<Rightarrow> ('w, unit) M" where
  "log l msg = emit (Log l msg)"

text \<open>
  Calling an \<open>sh\<close> command: the process runs, and an exit code outside \<open>_ok_code\<close>
  raises \<open>sh.ErrorReturnCode\<close>.
\<close>

definition sh_call :: "'w system \<Rightarrow> int list \<Rightarrow> cmd \<Rightarrow> ('w, string list) M" where
  "sh_call sys ok_codes c s =
     (case sh_run sys c (world s) of ((rc, out), w') \<Rightarrow>
        (let s' = s\<lparr>world := w', trace := trace s @ [Exec c rc]\<rparr>
         in if rc \<in> set ok_codes then (Inr out, s') else (Inl (ErrorReturnCode c rc), s')))"

definition datetime_now :: "'w system \<Rightarrow> ('w, string) M" where
  "datetime_now sys s = (case clock_now sys (world s) of (t, w') \<Rightarrow> (Inr t, s\<lparr>world := w'\<rparr>))"

section \<open>Strings\<close>

definition truthy :: "string option \<Rightarrow> bool" where
  "truthy x = (case x of None \<Rightarrow> False | Some v \<Rightarrow> v \<noteq> [])"

definition quoted :: "string \<Rightarrow> string" where
  "quoted x = [CHR 0x27] @ x @ [CHR 0x27]"

definition is_space :: "char \<Rightarrow> bool" where
  "is_space c = (c \<in> set [CHR 0x09, CHR 0x0A, CHR 0x0B, CHR 0x0C, CHR 0x0D,
                           CHR 0x1C, CHR 0x1D, CHR 0x1E, CHR 0x1F, CHR 0x20])"

definition strip :: "string \<Rightarrow> string" where
  "strip x = rev (dropWhile is_space (rev (dropWhile is_space x)))"

fun split_acc :: "char \<Rightarrow> string \<Rightarrow> string \<Rightarrow> string list" where
  "split_acc sep acc [] = [rev acc]"
| "split_acc sep acc (c # cs) =
     (if c = sep then rev acc # split_acc sep [] cs else split_acc sep (c # acc) cs)"

definition split_on :: "char \<Rightarrow> string \<Rightarrow> string list" where
  "split_on sep x = split_acc sep [] x"

section \<open>zfs_manager.py\<close>

record ZFSDataset =
  name :: string
  mount_point :: string

record ZFSManager =
  parent_dataset :: string

definition zfs :: "'w system \<Rightarrow> string list \<Rightarrow> ('w, string list) M" where
  "zfs sys args = sh_call sys [0] (Cmd ([''sudo'', ''zfs''] @ args) None False)"

definition target_dataset :: "ZFSManager \<Rightarrow> string option \<Rightarrow> string" where
  "target_dataset self dataset_name =
     (if truthy dataset_name then parent_dataset self @ ''/'' @ the dataset_name
      else parent_dataset self)"

definition dataset_exists :: "'w system \<Rightarrow> ZFSManager \<Rightarrow> string option \<Rightarrow> ('w, bool) M" where
  "dataset_exists sys self dataset_name =
     try_except
       (seq (zfs sys [''list'', ''-H'', ''-t'', ''filesystem'', target_dataset self dataset_name])
            (ret True))
       (\<lambda>e. case e of
          ErrorReturnCode c rc \<Rightarrow> if rc = 1 then ret False else raise e
        | _ \<Rightarrow> raise e)"

definition snapshot_exists :: "'w system \<Rightarrow> string \<Rightarrow> ('w, bool) M" where
  "snapshot_exists sys full_snapshot_name =
     try_except
       (seq (zfs sys [''list'', ''-H'', ''-t'', ''snapshot'', full_snapshot_name])
            (ret True))
       (\<lambda>e. case e of
          ErrorReturnCode c rc \<Rightarrow> if rc = 1 then ret False else raise e
        | _ \<Rightarrow> raise e)"

definition create_snapshot ::
  "'w system \<Rightarrow> ZFSManager \<Rightarrow> string option \<Rightarrow> string option \<Rightarrow> bool \<Rightarrow> ('w, string) M" where
  "create_snapshot sys self tag dataset_name recursive =
     bind (if truthy tag then ret (the tag)
           else bind (datetime_now sys) (\<lambda>timestamp. ret (''auto-'' @ timestamp)))
       (\<lambda>tag.
     let full_snapshot_name = target_dataset self dataset_name @ ''@'' @ tag in
     bind (snapshot_exists sys full_snapshot_name) (\<lambda>ex.
     if ex then raise (FileExistsError
                  (''Snapshot '' @ quoted full_snapshot_name @ '' already exists.''))
     else
     seq (zfs sys ([''snapshot''] @ (if recursive then [''-r''] else []) @ [full_snapshot_name]))
     (bind (snapshot_exists sys full_snapshot_name) (\<lambda>ex'.
      if \<not> ex' then raise (RuntimeError
                   (''Verification failed! Snapshot '' @ quoted full_snapshot_name
                    @ '' was not found after creation.''))
      else ret full_snapshot_name))))"

definition destroy_snapshot ::
  "'w system \<Rightarrow> ZFSManager \<Rightarrow> string \<Rightarrow> string option \<Rightarrow> bool \<Rightarrow> ('w, unit) M" where
  "destroy_snapshot sys self tag dataset_name recursive =
     (let full_snapshot_name = target_dataset self dataset_name @ ''@'' @ tag in
      bind (snapshot_exists sys full_snapshot_name) (\<lambda>ex.
      if \<not> ex then ret ()
      else
      seq (zfs sys ([''destroy''] @ (if recursive then [''-r''] else []) @ [full_snapshot_name]))
      (bind (snapshot_exists sys full_snapshot_name) (\<lambda>ex'.
       if ex' then raise (RuntimeError
                    (''Verification failed! Snapshot '' @ quoted full_snapshot_name
                     @ '' still exists after destruction.''))
       else ret ()))))"

definition parse_dataset_line :: "string \<Rightarrow> ZFSDataset option" where
  "parse_dataset_line line =
     (case split_on (CHR 0x09) (strip line) of
        [n, mp] \<Rightarrow> if mp = ''-'' then None else Some \<lparr>name = n, mount_point = mp\<rparr>
      | _ \<Rightarrow> None)"

text \<open>
  \<open>get_datasets\<close> is a generator over the lines of the listing; a non-zero exit of the
  listing is raised when the lines are exhausted. The pipeline consumes it with
  \<open>list(...)\<close>, which is what is modelled: all parsed lines, or the error.
\<close>

definition get_datasets :: "'w system \<Rightarrow> ZFSManager \<Rightarrow> ('w, ZFSDataset list) M" where
  "get_datasets sys self =
     bind (zfs sys [''list'', ''-r'', ''-t'', ''filesystem'', ''-o'', ''name,mountpoint'', ''-H'',
                    parent_dataset self])
       (\<lambda>lines. ret (List.map_filter parse_dataset_line lines))"

section \<open>Dictionaries in the store\<close>

fun dict_set :: "string \<Rightarrow> string \<Rightarrow> env \<Rightarrow> env" where
  "dict_set k v [] = [(k, v)]"
| "dict_set k v (p # ps) = (if fst p = k then (k, v) # ps else p # dict_set k v ps)"

definition dict_get :: "env \<Rightarrow> string \<Rightarrow> string option" where
  "dict_get d k = map_of d k"

text \<open>\<open>d.copy()\<close> allocates a new dictionary object with the same items.\<close>

definition dict_copy :: "nat \<Rightarrow> ('w, nat) M" where
  "dict_copy a s = (Inr (length (heap s)), s\<lparr>heap := heap s @ [heap s ! a]\<rparr>)"

definition dict_store :: "nat \<Rightarrow> string \<Rightarrow> string \<Rightarrow> ('w, unit) M" where
  "dict_store a k v s = (Inr (), s\<lparr>heap := (heap s)[a := dict_set k v (heap s ! a)]\<rparr>)"

definition dict_load :: "nat \<Rightarrow> ('w, env) M" where
  "dict_load a s = (Inr (heap s ! a), s)"

section \<open>File system\<close>

definition path_exists :: "'w system \<Rightarrow> string \<Rightarrow> ('w, bool) M" where
  "path_exists sys p s = (Inr (fs_exists sys p (world s)), s)"

definition path_unlink :: "'w system \<Rightarrow> string \<Rightarrow> ('w, unit) M" where
  "path_unlink sys p s =
     (case fs_unlink sys p (world s) of (ok, w') \<Rightarrow>
        (let s' = s\<lparr>world := w', trace := trace s @ [Unlink p ok]\<rparr>
         in if ok then (Inr (), s') else (Inl (OSError p), s')))"

definition path_mkdir :: "'w system \<Rightarrow> string \<Rightarrow> ('w, unit) M" where
  "path_mkdir sys p s =
     (case fs_mkdir sys p (world s) of (ok, w') \<Rightarrow>
        (let s' = s\<lparr>world := w', trace := trace s @ [Mkdir p ok]\<rparr>
         in if ok then (Inr (), s') else (Inl (OSError p), s')))"

fun join :: "string \<Rightarrow> string list \<Rightarrow> string" where
  "join sep [] = []"
| "join sep [x] = x"
| "join sep (x # y # ys) = x @ sep @ join sep (y # ys)"

text \<open>\<open>pathlib\<close> on POSIX: a path is a root and its parts.\<close>

definition path_root :: "string \<Rightarrow> string" where
  "path_root p =
     (if take 2 p = ''//'' \<and> take 3 p \<noteq> ''///'' then ''//''
      else if take 1 p = ''/'' then ''/'' else [])"

definition path_parts :: "string \<Rightarrow> string list" where
  "path_parts p = filter (\<lambda>x. x \<noteq> [] \<and> x \<noteq> ''.'') (split_on (CHR ''/'') p)"

definition path_str :: "string \<Rightarrow> string list \<Rightarrow> string" where
  "path_str r ps = (if r = [] \<and> ps = [] then ''.'' else r @ join ''/'' ps)"

definition path_parent :: "string \<Rightarrow> string" where
  "path_parent p = path_str (path_root p) (butlast (path_parts p))"

fun path_join :: "string \<times> string list \<Rightarrow> string list \<Rightarrow> string \<times> string list" where
  "path_join rp [] = rp"
| "path_join (r, ps) (x # xs) =
     (if path_root x \<noteq> [] then path_join (path_root x, path_parts x) xs
      else path_join (r, ps @ path_parts x) xs)"

section \<open>borg_backup_manager.py\<close>

record BorgBackupRepoManager =
  repo_path :: string
  borg_env :: nat

definition BorgBackupRepoManager_init ::
  "string \<Rightarrow> nat \<Rightarrow> ('w, BorgBackupRepoManager) M" where
  "BorgBackupRepoManager_init rp base_env =
     bind (dict_load base_env) (\<lambda>be.
     let missing_vars = filter (\<lambda>var. \<not> truthy (dict_get be var))
                          [''BORG_PASSPHRASE'', ''BORG_RSH'']
     in if missing_vars \<noteq> [] then
          raise (ValueError
            (''BorgBackupRepoManager is missing required environment configuration: ''
             @ join '', '' missing_vars))
        else
          bind (dict_copy base_env) (\<lambda>a.
          seq (dict_store a ''BORG_REPO'' rp)
              (ret \<lparr>repo_path = rp, borg_env = a\<rparr>)))"

text \<open>
  A \<open>borg\<close> command baked with \<open>_env\<close> a dictionary object: the process gets the items
  the dictionary has when the command runs.
\<close>

definition borg :: "'w system \<Rightarrow> nat \<Rightarrow> string list \<Rightarrow> bool \<Rightarrow> ('w, string list) M" where
  "borg sys env_addr args foreground =
     bind (dict_load env_addr) (\<lambda>e.
       sh_call sys [0] (Cmd ([''sudo'', ''-E'', ''borg''] @ args) (Some e) foreground))"

definition execute_command ::
  "'w system \<Rightarrow> BorgBackupRepoManager \<Rightarrow> string list \<Rightarrow> bool \<Rightarrow> ('w, string list) M" where
  "execute_command sys self args foreground = borg sys (borg_env self) args foreground"

definition repository_exists :: "'w system \<Rightarrow> BorgBackupRepoManager \<Rightarrow> ('w, bool) M" where
  "repository_exists sys self =
     try_except
       (seq (borg sys (borg_env self) [''info''] False) (ret True))
       (\<lambda>e. case e of
          ErrorReturnCode c rc \<Rightarrow> if rc = 2 then ret False else raise e
        | _ \<Rightarrow> raise e)"

definition initialize_repository :: "'w system \<Rightarrow> BorgBackupRepoManager \<Rightarrow> ('w, unit) M" where
  "initialize_repository sys self =
     seq (execute_command sys self [''init'', ''--encryption=repokey-blake2''] False) (ret ())"

definition initialize_if_needed :: "'w system \<Rightarrow> BorgBackupRepoManager \<Rightarrow> ('w, unit) M" where
  "initialize_if_needed sys self =
     bind (repository_exists sys self) (\<lambda>ex.
     if ex then ret ()
     else
     seq (initialize_repository sys self)
     (bind (repository_exists sys self) (\<lambda>ex'.
      if \<not> ex' then raise (RuntimeError
                   (''FATAL: Repository initialization failed for '' @ repo_path self
                    @ ''. The repository was not found after the ''
                    @ quoted ''init'' @ '' command.''))
      else ret ())))"

text \<open>
  \<open>try: p.unlink() except OSError: log\<close>: the failure of the deletion is logged and
  swallowed.
\<close>

definition unlink_logged :: "'w system \<Rightarrow> string \<Rightarrow> ('w, unit) M" where
  "unlink_logged sys p =
     try_except (path_unlink sys p)
       (\<lambda>e. case e of OSError _ \<Rightarrow> ret () | _ \<Rightarrow> raise e)"

definition export_recovery_key ::
  "'w system \<Rightarrow> BorgBackupRepoManager \<Rightarrow> string \<Rightarrow> ('w, unit) M" where
  "export_recovery_key sys self key_file_path =
     seq (path_mkdir sys (path_parent key_file_path))
     (seq (try_except
             (seq (execute_command sys self
                     [''key'', ''export'', ''--paper'', repo_path self, key_file_path] False)
                  (ret ()))
             (\<lambda>e. case e of
                ErrorReturnCode c rc \<Rightarrow>
                  seq (bind (path_exists sys key_file_path) (\<lambda>ex.
                         if ex then unlink_logged sys key_file_path else ret ()))
                      (raise e)
              | _ \<Rightarrow> raise e))
     (bind (dict_copy (borg_env self)) (\<lambda>verify_env.
      seq (dict_store verify_env ''BORG_KEY_FILE'' key_file_path)
     (try_except
        (seq (borg sys verify_env [''list''] False) (ret ()))
        (\<lambda>e. case e of
           ErrorReturnCode c rc \<Rightarrow> seq (unlink_logged sys key_file_path) (raise e)
         | _ \<Rightarrow> raise e)))))"

definition create_archive ::
  "'w system \<Rightarrow> BorgBackupRepoManager \<Rightarrow> string \<Rightarrow> string \<Rightarrow> string \<Rightarrow> string \<Rightarrow> ('w, unit) M"
  where
  "create_archive sys self archive_name source_path compression excludes_file =
     seq (execute_command sys self
            [''create'', ''--verbose'', ''--stats'', ''--progress'',
             ''--compression='' @ compression, ''--exclude-from='' @ excludes_file,
             ''::'' @ archive_name, source_path] True)
         (ret ())"

definition prune_archives ::
  "'w system \<Rightarrow> BorgBackupRepoManager \<Rightarrow> string list \<Rightarrow> ('w, unit) M" where
  "prune_archives sys self prune_policy =
     seq (execute_command sys self
            ([''prune'', ''--verbose'', ''--list'', ''--show-rc'', ''--progress''] @ prune_policy)
            True)
         (ret ())"

fun contains :: "string \<Rightarrow> string \<Rightarrow> bool" where
  "contains sub [] = (sub = [])"
| "contains sub (c # cs) = (take (length sub) (c # cs) = sub \<or> contains sub cs)"

text \<open>\<open>s.replace(old, new, 1)\<close>\<close>

fun replace_first :: "string \<Rightarrow> string \<Rightarrow> string \<Rightarrow> string" where
  "replace_first old new [] = (if old = [] then new else [])"
| "replace_first old new (c # cs) =
     (if take (length old) (c # cs) = old then new @ drop (length old) (c # cs)
      else c # replace_first old new cs)"

definition check_repository :: "'w system \<Rightarrow> BorgBackupRepoManager \<Rightarrow> bool \<Rightarrow> ('w, unit) M" where
  "check_repository sys self verify_data =
     (let args = [''check'', ''--verbose'', ''--progress'']
                 @ (if verify_data then [''--verify-data''] else []) in
      bind (dict_copy (borg_env self)) (\<lambda>local_env.
      bind (dict_load local_env) (\<lambda>le.
      let original_rsh = (case dict_get le ''BORG_RSH'' of None \<Rightarrow> [] | Some v \<Rightarrow> v) in
      seq (if contains ''ssh '' original_rsh
           then dict_store local_env ''BORG_RSH''
                  (replace_first ''ssh '' ''ssh -o ServerAliveInterval=60 '' original_rsh)
           else ret ())
          (seq (borg sys local_env args True) (ret ())))))"

section \<open>docker_manager.py\<close>

text \<open>
  The compose files are found by scanning the services directory; the scan is a read of
  the world. The command is run for each file in turn and the first exit code outside
  \<open>ok_codes\<close> is raised. The working directory of each command is the directory of its
  compose file, which \<open>-f\<close> names.
\<close>

fun run_each :: "'w system \<Rightarrow> string \<Rightarrow> string list \<Rightarrow> int list \<Rightarrow> string list \<Rightarrow> ('w, unit) M"
  where
  "run_each sys command args ok_codes [] = ret ()"
| "run_each sys command args ok_codes (compose_file # rest) =
     seq (sh_call sys ok_codes
            (Cmd ([''sudo'', ''docker'', ''compose'', ''-f'', compose_file, command] @ args)
               None False))
         (run_each sys command args ok_codes rest)"

definition run_command_on_all ::
  "'w system \<Rightarrow> string \<Rightarrow> string list \<Rightarrow> int list \<Rightarrow> ('w, unit) M" where
  "run_command_on_all sys command args ok_codes s =
     (let compose_files = fs_compose_files sys (world s)
      in if compose_files = [] then (Inr (), s)
         else run_each sys command args ok_codes compose_files s)"

definition up_all :: "'w system \<Rightarrow> ('w, unit) M" where
  "up_all sys = run_command_on_all sys ''up'' [''-d'', ''--build''] [0]"

definition stop_all :: "'w system \<Rightarrow> ('w, unit) M" where
  "stop_all sys = run_command_on_all sys ''stop'' [] [0]"

section \<open>backup_manager.py\<close>

record Config =
  repo_base_path :: string
  passphrase :: string
  rsh :: string
  archive_prefix :: string
  prune_policy :: "string list"
  zfs_parent_dataset :: string
  compression :: string
  excludes_file :: string
  base_borg_env :: nat

record BackupOrchestrator =
  config :: Config
  zfs_manager :: ZFSManager
  snapshot_tag :: string

definition dict_new :: "env \<Rightarrow> ('w, nat) M" where
  "dict_new d s = (Inr (length (heap s)), s\<lparr>heap := heap s @ [d]\<rparr>)"

text \<open>
  \<open>Config.__post_init__\<close>: the base environment is a copy of the process environment
  (a parameter here) updated with the passphrase and the remote-shell spec.
\<close>

definition Config_init ::
  "env \<Rightarrow> string \<Rightarrow> string \<Rightarrow> string \<Rightarrow> string \<Rightarrow> string list \<Rightarrow> string \<Rightarrow> string \<Rightarrow> string
   \<Rightarrow> ('w, Config) M" where
  "Config_init os_environ rbp pass r pre policy parent cmpr excl =
     bind (dict_new os_environ) (\<lambda>a.
     seq (dict_store a ''BORG_PASSPHRASE'' pass)
    (seq (dict_store a ''BORG_RSH'' r)
         (ret \<lparr>repo_base_path = rbp, passphrase = pass, rsh = r, archive_prefix = pre,
               prune_policy = policy, zfs_parent_dataset = parent, compression = cmpr,
               excludes_file = excl, base_borg_env = a\<rparr>)))"

definition ZFSManager_init :: "string \<Rightarrow> ('w, ZFSManager) M" where
  "ZFSManager_init parent =
     (if parent = [] then raise (ValueError ''parent_dataset cannot be empty.'')
      else ret \<lparr>parent_dataset = parent\<rparr>)"

definition generate_snapshot_tag :: "'w system \<Rightarrow> ('w, string) M" where
  "generate_snapshot_tag sys =
     bind (datetime_now sys) (\<lambda>timestamp. ret (''auto-backup_'' @ timestamp))"

definition BackupOrchestrator_init :: "'w system \<Rightarrow> Config \<Rightarrow> ('w, BackupOrchestrator) M" where
  "BackupOrchestrator_init sys cfg =
     bind (ZFSManager_init (zfs_parent_dataset cfg)) (\<lambda>zm.
     bind (generate_snapshot_tag sys) (\<lambda>tag.
     ret \<lparr>config = cfg, zfs_manager = zm, snapshot_tag = tag\<rparr>))"

text \<open>\<open>dataset.name.replace("/", "_")\<close>: every slash becomes an underscore.\<close>

definition get_repo_path :: "BackupOrchestrator \<Rightarrow> ZFSDataset \<Rightarrow> string" where
  "get_repo_path self dataset =
     repo_base_path (config self) @ ''/''
       @ map (\<lambda>c. if c = CHR ''/'' then CHR ''_'' else c) (name dataset)"

definition get_snapshot_path :: "BackupOrchestrator \<Rightarrow> ZFSDataset \<Rightarrow> string" where
  "get_snapshot_path self dataset =
     (case path_join (path_root (mount_point dataset), path_parts (mount_point dataset))
             [''.zfs'', ''snapshot'', snapshot_tag self]
      of (r, ps) \<Rightarrow> path_str r ps)"

definition build_archive_name :: "'w system \<Rightarrow> string \<Rightarrow> string \<Rightarrow> ('w, string) M" where
  "build_archive_name sys pre tag =
     bind (datetime_now sys) (\<lambda>timestamp. ret (pre @ ''_'' @ tag @ ''_'' @ timestamp))"

definition backup_single_snapshot ::
  "'w system \<Rightarrow> BackupOrchestrator \<Rightarrow> string \<Rightarrow> string \<Rightarrow> string \<Rightarrow> ('w, unit) M" where
  "backup_single_snapshot sys self rp archive_name snapshot_data_path =
     bind (BorgBackupRepoManager_init rp (base_borg_env (config self))) (\<lambda>borg_manager.
     seq (initialize_if_needed sys borg_manager)
    (seq (create_archive sys borg_manager archive_name snapshot_data_path
            (compression (config self)) (excludes_file (config self)))
         (prune_archives sys borg_manager (prune_policy (config self)))))"

definition backup_single_dataset ::
  "'w system \<Rightarrow> BackupOrchestrator \<Rightarrow> ZFSDataset \<Rightarrow> ('w, unit) M" where
  "backup_single_dataset sys self dataset =
     (let rp = get_repo_path self dataset;
          snapshot_data_path = get_snapshot_path self dataset
      in bind (build_archive_name sys (archive_prefix (config self)) (snapshot_tag self))
           (\<lambda>archive_name.
              try_except (backup_single_snapshot sys self rp archive_name snapshot_data_path)
                (\<lambda>e. raise e)))"

definition check_single_repository ::
  "'w system \<Rightarrow> BackupOrchestrator \<Rightarrow> string \<Rightarrow> ('w, unit) M" where
  "check_single_repository sys self rp =
     bind (BorgBackupRepoManager_init rp (base_borg_env (config self))) (\<lambda>borg_manager.
       check_repository sys borg_manager False)"

fun for_each :: "('a \<Rightarrow> ('w, unit) M) \<Rightarrow> 'a list \<Rightarrow> ('w, unit) M" where
  "for_each body [] = ret ()"
| "for_each body (x # xs) = seq (body x) (for_each body xs)"

definition orchestrate_dataset_backups :: "'w system \<Rightarrow> BackupOrchestrator \<Rightarrow> ('w, unit) M"
  where
  "orchestrate_dataset_backups sys self =
     bind (get_datasets sys (zfs_manager self)) (\<lambda>datasets.
     if datasets = [] then
       raise (RuntimeError (''Found 0 mounted datasets to back up under ''
                            @ quoted (zfs_parent_dataset (config self)) @ ''.''))
     else
       seq (for_each (backup_single_dataset sys self) datasets)
           (for_each (\<lambda>dataset. check_single_repository sys self (get_repo_path self dataset))
              datasets))"

text \<open>
  The \<open>except Exception\<close> clause of \<open>backup_all\<close>: the failure is logged, the tag of a
  snapshot that was created is reported, and the exception is raised again.
\<close>

definition left_message :: "string \<Rightarrow> string" where
  "left_message tag =
     ''The temporary snapshot '' @ quoted tag
     @ '' has been LEFT for manual inspection due to the failure.''"

definition backup_failed :: "bool \<Rightarrow> string \<Rightarrow> exn \<Rightarrow> ('w, unit) M" where
  "backup_failed snapshot_created tag e =
     seq (log CRITICAL ''--- BACKUP FINISHED WITH AN UNRECOVERABLE ERROR ---'')
    (seq (if snapshot_created then log ERROR (left_message tag) else ret ())
         (raise e))"

text \<open>
  \<open>backup_all\<close>, block by block. The local flag \<open>snapshot_created\<close> is set when
  \<open>create_snapshot\<close> has returned and cleared when \<open>destroy_snapshot\<close> has returned; the
  handler reads it. The restart of the services is the \<open>finally\<close> clause of the
  snapshot step: it runs on both exits of that step, and its own exception replaces the
  outcome of the step.
\<close>

definition stop_step :: "'w system \<Rightarrow> ('w, unit) M" where
  "stop_step sys =
     seq (log INFO ''====== Orchestrated Backup Process Starting ======'')
    (seq (log INFO ''--> Step 1: Stopping all Docker services for data consistency.'')
         (stop_all sys))"

definition snapshot_step :: "'w system \<Rightarrow> BackupOrchestrator \<Rightarrow> ('w, string) M" where
  "snapshot_step sys self =
     seq (log INFO ''--> Step 2: Creating recursive ZFS snapshot for all datasets.'')
         (create_snapshot sys (zfs_manager self) (Some (snapshot_tag self)) None True)"

definition restart_step :: "'w system \<Rightarrow> ('w, unit) M" where
  "restart_step sys =
     seq (log INFO ''--> Bringing Docker services back online.'') (up_all sys)"

definition cleanup_step :: "'w system \<Rightarrow> BackupOrchestrator \<Rightarrow> ('w, unit) M" where
  "cleanup_step sys self =
     seq (log INFO ''--> Step 4: All backups successful. Cleaning up ZFS snapshot.'')
         (destroy_snapshot sys (zfs_manager self) (snapshot_tag self) None True)"

definition backup_all :: "'w system \<Rightarrow> BackupOrchestrator \<Rightarrow> ('w, unit) M" where
  "backup_all sys self s0 =
     (let tag = snapshot_tag self in
      case stop_step sys s0 of
        (Inl e, s1) \<Rightarrow> backup_failed False tag e s1
      | (Inr _, s1) \<Rightarrow>
         (case snapshot_step sys self s1 of
            (r, s2) \<Rightarrow>
              (let snapshot_created = (case r of Inl _ \<Rightarrow> False | Inr _ \<Rightarrow> True) in
               case restart_step sys s2 of
                 (Inl e, s3) \<Rightarrow> backup_failed snapshot_created tag e s3
               | (Inr _, s3) \<Rightarrow>
                  (case r of
                     Inl e \<Rightarrow> backup_failed snapshot_created tag e s3
                   | Inr _ \<Rightarrow>
                      (case orchestrate_dataset_backups sys self s3 of
                         (Inl e, s4) \<Rightarrow> backup_failed snapshot_created tag e s4
                       | (Inr _, s4) \<Rightarrow>
                          (case cleanup_step sys self s4 of
                             (Inl e, s5) \<Rightarrow> backup_failed snapshot_created tag e s5
                           | (Inr _, s5) \<Rightarrow>
                               log INFO
                                 ''====== Orchestrated Backup Process Finished Successfully ======''
                                 s5))))))"

section \<open>Vocabulary of the properties\<close>

definition rc_of :: "'w system \<Rightarrow> cmd \<Rightarrow> 'w \<Rightarrow> int" where
  "rc_of sys c w = fst (fst (sh_run sys c w))"

definition after :: "'w system \<Rightarrow> cmd \<Rightarrow> 'w \<Rightarrow> 'w" where
  "after sys c w = snd (sh_run sys c w)"

text \<open>The state after command \<open>c\<close> has run in state \<open>s\<close>.\<close>

definition ran :: "'w system \<Rightarrow> cmd \<Rightarrow> 'w state \<Rightarrow> 'w state" where
  "ran sys c s = s\<lparr>world := after sys c (world s),
                   trace := trace s @ [Exec c (rc_of sys c (world s))]\<rparr>"

definition list_filesystem_cmd :: "string \<Rightarrow> cmd" where
  "list_filesystem_cmd target =
     Cmd [''sudo'', ''zfs'', ''list'', ''-H'', ''-t'', ''filesystem'', target] None False"

definition list_snapshot_cmd :: "string \<Rightarrow> cmd" where
  "list_snapshot_cmd target =
     Cmd [''sudo'', ''zfs'', ''list'', ''-H'', ''-t'', ''snapshot'', target] None False"

definition zfs_snapshot_cmd :: "bool \<Rightarrow> string \<Rightarrow> cmd" where
  "zfs_snapshot_cmd recursive target =
     Cmd ([''sudo'', ''zfs'', ''snapshot''] @ (if recursive then [''-r''] else []) @ [target])
       None False"

definition zfs_destroy_cmd :: "bool \<Rightarrow> string \<Rightarrow> cmd" where
  "zfs_destroy_cmd recursive target =
     Cmd ([''sudo'', ''zfs'', ''destroy''] @ (if recursive then [''-r''] else []) @ [target])
       None False"

definition borg_info_cmd :: "env \<Rightarrow> cmd" where
  "borg_info_cmd e = Cmd [''sudo'', ''-E'', ''borg'', ''info''] (Some e) False"

definition borg_init_cmd :: "env \<Rightarrow> cmd" where
  "borg_init_cmd e =
     Cmd [''sudo'', ''-E'', ''borg'', ''init'', ''--encryption=repokey-blake2''] (Some e) False"

text \<open>The events a computation adds to the trace.\<close>

definition new_events :: "'w state \<Rightarrow> 'w state \<Rightarrow> event list" where
  "new_events s s' = drop (length (trace s)) (trace s')"

section \<open>A simulated system\<close>

text \<open>
  A small system on which the properties are exercised at concrete inputs: a set of
  snapshots and file systems, the listing of the mounted volumes, the archive
  repositories with their archives, a set of files and a clock. The system takes a
  list of injected faults (the number of a command and the exit code it is forced to,
  without effect on the world) and a flag that makes every deletion of a file fail.
\<close>

record sim =
  sim_snapshots :: "string list"
  sim_filesystems :: "string list"
  sim_listing :: "string list"
  sim_repos :: "(string \<times> string list) list"
  sim_files :: "string list"
  sim_clock :: "string list"
  sim_compose :: "string list"
  sim_count :: nat

definition sim_zfs :: "string list \<Rightarrow> sim \<Rightarrow> (int \<times> string list) \<times> sim" where
  "sim_zfs args w =
     (if take 4 args = [''list'', ''-H'', ''-t'', ''snapshot''] then
        ((if last args \<in> set (sim_snapshots w) then 0 else 1, []), w)
      else if take 4 args = [''list'', ''-H'', ''-t'', ''filesystem''] then
        ((if last args \<in> set (sim_filesystems w) then 0 else 1, []), w)
      else if take 2 args = [''list'', ''-r''] then ((0, sim_listing w), w)
      else if take 1 args = [''snapshot''] then
        (if last args \<in> set (sim_snapshots w) then ((1, []), w)
         else ((0, []), w\<lparr>sim_snapshots := sim_snapshots w @ [last args]\<rparr>))
      else if take 1 args = [''destroy''] then
        (if last args \<in> set (sim_snapshots w)
         then ((0, []), w\<lparr>sim_snapshots := removeAll (last args) (sim_snapshots w)\<rparr>)
         else ((1, []), w))
      else ((2, []), w))"

definition sim_borg :: "string list \<Rightarrow> env \<Rightarrow> sim \<Rightarrow> (int \<times> string list) \<times> sim" where
  "sim_borg args e w =
     (case map_of e ''BORG_REPO'' of
        None \<Rightarrow> ((2, []), w)
      | Some repo \<Rightarrow>
         (case map_of (sim_repos w) repo of
            None \<Rightarrow>
              (if take 1 args = [''init'']
               then ((0, []), w\<lparr>sim_repos := sim_repos w @ [(repo, [])]\<rparr>)
               else ((2, []), w))
          | Some archives \<Rightarrow>
              (if take 1 args = [''init''] then ((2, []), w)
               else if take 1 args = [''create''] then
                 ((0, []), w\<lparr>sim_repos :=
                    map (\<lambda>(r, a). if r = repo then (r, a @ [drop 2 (args ! 6)]) else (r, a))
                      (sim_repos w)\<rparr>)
               else if take 2 args = [''key'', ''export''] then
                 ((0, []), w\<lparr>sim_files := sim_files w @ [last args]\<rparr>)
               else if args = [''list''] then
                 (case map_of e ''BORG_KEY_FILE'' of
                    None \<Rightarrow> ((0, archives), w)
                  | Some f \<Rightarrow> if f \<in> set (sim_files w) then ((0, archives), w)
                              else ((2, []), w))
               else ((0, []), w))))"

definition sim_run :: "(nat \<times> int) list \<Rightarrow> cmd \<Rightarrow> sim \<Rightarrow> (int \<times> string list) \<times> sim"
  where
  "sim_run faults c w =
     (let w1 = w\<lparr>sim_count := Suc (sim_count w)\<rparr>
      in case map_of faults (sim_count w) of
           Some rc \<Rightarrow> ((rc, []), w1)
         | None \<Rightarrow>
            (if take 2 (argv c) = [''sudo'', ''zfs''] then sim_zfs (drop 2 (argv c)) w1
             else if take 3 (argv c) = [''sudo'', ''-E'', ''borg'']
               then sim_borg (drop 3 (argv c)) (case cenv c of None \<Rightarrow> [] | Some e \<Rightarrow> e) w1
             else ((0, []), w1)))"

definition sim_unlink :: "bool \<Rightarrow> string \<Rightarrow> sim \<Rightarrow> bool \<times> sim" where
  "sim_unlink readonly p w =
     (if readonly \<or> p \<notin> set (sim_files w) then (False, w)
      else (True, w\<lparr>sim_files := removeAll p (sim_files w)\<rparr>))"

definition sim_now :: "sim \<Rightarrow> string \<times> sim" where
  "sim_now w =
     (case sim_clock w of [] \<Rightarrow> ([], w) | t # ts \<Rightarrow> (t, w\<lparr>sim_clock := ts\<rparr>))"

definition sim_system :: "(nat \<times> int) list \<Rightarrow> bool \<Rightarrow> sim system" where
  "sim_system faults readonly =
     \<lparr>sh_run = sim_run faults,
      fs_exists = (\<lambda>p w. p \<in> set (sim_files w)),
      fs_unlink = sim_unlink readonly,
      fs_mkdir = (\<lambda>p w. (True, w)),
      fs_compose_files = sim_compose,
      clock_now = sim_now\<rparr>"

definition sim0 :: sim where
  "sim0 = \<lparr>sim_snapshots = [], sim_filesystems = [], sim_listing = [], sim_repos = [],
           sim_files = [], sim_clock = [], sim_compose = [], sim_count = 0\<rparr>"

definition state0 :: "env list \<Rightarrow> 'w \<Rightarrow> 'w state" where
  "state0 h w = \<lparr>heap = h, world = w, trace = []\<rparr>"

text \<open>
  The contract of the storage tool for snapshots, relative to an observation \<open>ex\<close> of
  the world (snapshot \<open>n\<close> exists in world \<open>w\<close>): the snapshot query reports
  existence by exit code 0 and absence by exit code 1 and does not change it, and the
  snapshot command on an absent snapshot exits 0 and makes it exist.
\<close>

definition snapshot_layer :: "'w system \<Rightarrow> (string \<Rightarrow> 'w \<Rightarrow> bool) \<Rightarrow> bool" where
  "snapshot_layer sys ex \<longleftrightarrow>
     (\<forall>n w. rc_of sys (list_snapshot_cmd n) w = (if ex n w then 0 else 1)
            \<and> ex n (after sys (list_snapshot_cmd n) w) = ex n w)
     \<and> (\<forall>r n w. \<not> ex n w \<longrightarrow>
            rc_of sys (zfs_snapshot_cmd r n) w = 0
            \<and> ex n (after sys (zfs_snapshot_cmd r n) w))"

definition is_init :: "event \<Rightarrow> bool" where
  "is_init ev = (case ev of Exec c rc \<Rightarrow> take 4 (argv c) = [''sudo'', ''-E'', ''borg'', ''init'']
                 | _ \<Rightarrow> False)"

definition borg_cmd :: "env \<Rightarrow> string list \<Rightarrow> bool \<Rightarrow> cmd" where
  "borg_cmd e args foreground = Cmd ([''sudo'', ''-E'', ''borg''] @ args) (Some e) foreground"

definition borg_check_cmd :: "env \<Rightarrow> bool \<Rightarrow> cmd" where
  "borg_check_cmd e verify_data =
     borg_cmd e ([''check'', ''--verbose'', ''--progress'']
                 @ (if verify_data then [''--verify-data''] else [])) True"

definition key_export_cmd :: "env \<Rightarrow> string \<Rightarrow> string \<Rightarrow> cmd" where
  "key_export_cmd e rp p = borg_cmd e [''key'', ''export'', ''--paper'', rp, p] False"

definition key_verify_cmd :: "env \<Rightarrow> string \<Rightarrow> cmd" where
  "key_verify_cmd e p = borg_cmd (dict_set ''BORG_KEY_FILE'' p e) [''list''] False"

text \<open>The states after a deletion and after a directory creation.\<close>

definition unlinked :: "'w system \<Rightarrow> string \<Rightarrow> 'w state \<Rightarrow> 'w state" where
  "unlinked sys p s = s\<lparr>world := snd (fs_unlink sys p (world s)),
                        trace := trace s @ [Unlink p (fst (fs_unlink sys p (world s)))]\<rparr>"

definition mkdired :: "'w system \<Rightarrow> string \<Rightarrow> 'w state \<Rightarrow> 'w state" where
  "mkdired sys p s = s\<lparr>world := snd (fs_mkdir sys p (world s)),
                       trace := trace s @ [Mkdir p (fst (fs_mkdir sys p (world s)))]\<rparr>"

text \<open>The contract of the file system for deletion: a deletion that succeeds removes the file.\<close>

definition unlink_removes :: "'w system \<Rightarrow> bool" where
  "unlink_removes sys \<longleftrightarrow>
     (\<forall>p w. fst (fs_unlink sys p w) \<longrightarrow> \<not> fs_exists sys p (snd (fs_unlink sys p w)))"

text \<open>
  A computation only extends the state: the store grows at its end (the dictionaries
  that exist are not changed) and the trace grows by events that all satisfy \<open>P\<close>.
\<close>

definition emits :: "(event \<Rightarrow> bool) \<Rightarrow> ('w, 'a) M \<Rightarrow> bool" where
  "emits P m \<longleftrightarrow>
     (\<forall>s. \<exists>h evs. heap (snd (m s)) = heap s @ h \<and> trace (snd (m s)) = trace s @ evs
                   \<and> list_all P evs)"

definition is_log :: "event \<Rightarrow> bool" where
  "is_log ev = (case ev of Log l msg \<Rightarrow> True | _ \<Rightarrow> False)"

definition is_exec :: "event \<Rightarrow> bool" where
  "is_exec ev = (case ev of Exec c rc \<Rightarrow> True | _ \<Rightarrow> False)"

definition is_destroy :: "event \<Rightarrow> bool" where
  "is_destroy ev =
     (case ev of Exec c rc \<Rightarrow> take 3 (argv c) = [''sudo'', ''zfs'', ''destroy''] | _ \<Rightarrow> False)"

definition is_create :: "event \<Rightarrow> bool" where
  "is_create ev =
     (case ev of Exec c rc \<Rightarrow> take 4 (argv c) = [''sudo'', ''-E'', ''borg'', ''create'']
      | _ \<Rightarrow> False)"

text \<open>The event is a \<open>borg\<close> command on the repository \<open>rp\<close>.\<close>

definition targets :: "string \<Rightarrow> event \<Rightarrow> bool" where
  "targets rp ev =
     (case ev of
        Exec c rc \<Rightarrow>
          take 3 (argv c) = [''sudo'', ''-E'', ''borg'']
          \<and> (case cenv c of None \<Rightarrow> False | Some e \<Rightarrow> map_of e ''BORG_REPO'' = Some rp)
      | _ \<Rightarrow> False)"

definition restart_marker :: event where
  "restart_marker = Log INFO ''--> Bringing Docker services back online.''"

definition failure_marker :: event where
  "failure_marker = Log CRITICAL ''--- BACKUP FINISHED WITH AN UNRECOVERABLE ERROR ---''"

definition left_marker :: "string \<Rightarrow> event" where
  "left_marker tag = Log ERROR (left_message tag)"

text \<open>
  \<open>P\<close> holds of every command of the pipeline other than \<open>zfs destroy\<close>: the
  \<open>docker compose\<close> commands, \<open>zfs list\<close> and \<open>zfs snapshot\<close> (the commands on the
  host), and the \<open>borg\<close> commands.
\<close>

definition admits_host :: "(event \<Rightarrow> bool) \<Rightarrow> bool" where
  "admits_host P \<longleftrightarrow>
     (\<forall>a f rc. P (Exec (Cmd ([''sudo'', ''docker'', ''compose''] @ a) None f) rc))
     \<and> (\<forall>a rc. P (Exec (Cmd ([''sudo'', ''zfs'', ''list''] @ a) None False) rc))
     \<and> (\<forall>a rc. P (Exec (Cmd ([''sudo'', ''zfs'', ''snapshot''] @ a) None False) rc))"

definition admits :: "(event \<Rightarrow> bool) \<Rightarrow> bool" where
  "admits P \<longleftrightarrow>
     admits_host P
     \<and> (\<forall>a e f rc. P (Exec (Cmd ([''sudo'', ''-E'', ''borg''] @ a) (Some e) f) rc))"

definition plain_command :: "event \<Rightarrow> bool" where
  "plain_command ev \<longleftrightarrow> is_exec ev \<and> \<not> is_destroy ev"

section \<open>A pipeline run on the simulated system\<close>

text \<open>
  Parent namespace \<open>pool/svcs\<close> with the mounted volumes \<open>a\<close> and \<open>b\<close>, one compose
  file, no repository yet, and the clock readings \<open>T2a\<close> and \<open>T2b\<close>; the run's tag is
  \<open>auto-backup_T\<close>.
\<close>

definition demo_world :: sim where
  "demo_world =
     sim0\<lparr>sim_filesystems := [''pool/svcs'', ''pool/svcs/a'', ''pool/svcs/b''],
          sim_listing := [''pool/svcs/a'' @ [CHR 0x09] @ ''/mnt/a'' @ [CHR 0x0A],
                          ''pool/svcs/b'' @ [CHR 0x09] @ ''/mnt/b'' @ [CHR 0x0A]],
          sim_clock := [''T2a'', ''T2b''],
          sim_compose := [''/srv/app/docker-compose.yml'']\<rparr>"

definition demo_config :: Config where
  "demo_config =
     \<lparr>repo_base_path = ''/backup'', passphrase = ''pw'', rsh = ''ssh -i key'',
      archive_prefix = ''pre'', prune_policy = [''--keep-daily=7''],
      zfs_parent_dataset = ''pool/svcs'', compression = ''zstd'',
      excludes_file = ''/etc/excludes'', base_borg_env = 0\<rparr>"

definition demo_orchestrator :: BackupOrchestrator where
  "demo_orchestrator =
     \<lparr>config = demo_config, zfs_manager = \<lparr>parent_dataset = ''pool/svcs''\<rparr>,
      snapshot_tag = ''auto-backup_T''\<rparr>"

definition demo_state :: "sim state" where
  "demo_state =
     state0 [[(''BORG_PASSPHRASE'', ''pw''), (''BORG_RSH'', ''ssh -i key'')]] demo_world"

definition borg_create_cmd :: "env \<Rightarrow> string \<Rightarrow> string \<Rightarrow> string \<Rightarrow> string \<Rightarrow> cmd" where
  "borg_create_cmd e archive_name source_path cmpr excl =
     borg_cmd e [''create'', ''--verbose'', ''--stats'', ''--progress'',
                 ''--compression='' @ cmpr, ''--exclude-from='' @ excl,
                 ''::'' @ archive_name, source_path] True"

definition borg_prune_cmd :: "env \<Rightarrow> string list \<Rightarrow> cmd" where
  "borg_prune_cmd e policy =
     borg_cmd e ([''prune'', ''--verbose'', ''--list'', ''--show-rc'', ''--progress''] @ policy)
       True"

text \<open>The environment of the manager of repository \<open>rp\<close>, made from the base environment.\<close>

definition repo_env :: "BackupOrchestrator \<Rightarrow> 'w state \<Rightarrow> string \<Rightarrow> env" where
  "repo_env self s rp = dict_set ''BORG_REPO'' rp (heap s ! base_borg_env (config self))"

definition is_borg :: "event \<Rightarrow> bool" where
  "is_borg ev =
     (case ev of Exec c rc \<Rightarrow> take 3 (argv c) = [''sudo'', ''-E'', ''borg''] | _ \<Rightarrow> False)"

definition list_datasets_cmd :: "string \<Rightarrow> cmd" where
  "list_datasets_cmd parent =
     Cmd [''sudo'', ''zfs'', ''list'', ''-r'', ''-t'', ''filesystem'', ''-o'', ''name,mountpoint'',
          ''-H'', parent] None False"

text \<open>The listing of the volumes under \<open>parent\<close> always parses to the datasets \<open>ds\<close>.\<close>

definition enumerates :: "'w system \<Rightarrow> string \<Rightarrow> ZFSDataset list \<Rightarrow> bool" where
  "enumerates sys parent ds \<longleftrightarrow>
     (\<forall>w. List.map_filter parse_dataset_line (snd (fst (sh_run sys (list_datasets_cmd parent) w)))
            = ds)"

text \<open>
  The event is the successful creation of an archive named \<open>pre_tag_timestamp\<close>, for
  some timestamp, in repository \<open>rp\<close> from the path \<open>src\<close>.
\<close>

definition archived :: "string \<Rightarrow> string \<Rightarrow> string \<Rightarrow> string \<Rightarrow> string \<Rightarrow> string \<Rightarrow> event \<Rightarrow> bool"
  where
  "archived rp pre tag src cmpr excl ev \<longleftrightarrow>
     (\<exists>e ts. ev = Exec (borg_create_cmd e (pre @ ''_'' @ tag @ ''_'' @ ts) src cmpr excl) 0
             \<and> map_of e ''BORG_REPO'' = Some rp)"

text \<open>The demonstration with a third volume.\<close>

definition three_volumes :: "sim state" where
  "three_volumes =
     state0 [[(''BORG_PASSPHRASE'', ''pw''), (''BORG_RSH'', ''ssh -i key'')]]
       (demo_world\<lparr>sim_filesystems := [''pool/svcs'', ''pool/svcs/a'', ''pool/svcs/b'',
                                        ''pool/svcs/c''],
                   sim_listing := [''pool/svcs/a'' @ [CHR 0x09] @ ''/mnt/a'' @ [CHR 0x0A],
                                   ''pool/svcs/b'' @ [CHR 0x09] @ ''/mnt/b'' @ [CHR 0x0A],
                                   ''pool/svcs/c'' @ [CHR 0x09] @ ''/mnt/c'' @ [CHR 0x0A]],
                   sim_clock := [''T2a'', ''T2b'', ''T2c'']\<rparr>)"

section \<open>Running a command\<close>

lemma sh_call_eq:
  "sh_call sys oks c s =
     (if rc_of sys c (world s) \<in> set oks then Inr (snd (fst (sh_run sys c (world s))))
      else Inl (ErrorReturnCode c (rc_of sys c (world s))), ran sys c s)"
  by (simp add: sh_call_def rc_of_def after_def ran_def Let_def split: prod.splits)

lemma zfs_eq:
  "zfs sys args s =
     (let c = Cmd ([''sudo'', ''zfs''] @ args) None False; rc = rc_of sys c (world s)
      in (if rc = 0 then Inr (snd (fst (sh_run sys c (world s))))
          else Inl (ErrorReturnCode c rc), ran sys c s))"
  by (simp add: zfs_def sh_call_eq Let_def)

lemma new_events_ran [simp]:
  "new_events s (ran sys c s) = [Exec c (rc_of sys c (world s))]"
  "new_events s (ran sys c2 (ran sys c s)) =
     [Exec c (rc_of sys c (world s)), Exec c2 (rc_of sys c2 (world (ran sys c s)))]"
  "new_events s (ran sys c3 (ran sys c2 (ran sys c s))) =
     [Exec c (rc_of sys c (world s)), Exec c2 (rc_of sys c2 (world (ran sys c s))),
      Exec c3 (rc_of sys c3 (world (ran sys c2 (ran sys c s))))]"
  by (simp_all add: new_events_def ran_def)

lemma world_ran [simp]: "world (ran sys c s) = after sys c (world s)"
  by (simp add: ran_def)

lemma heap_ran [simp]: "heap (ran sys c s) = heap s"
  by (simp add: ran_def)

section \<open>Existence probes\<close>

lemma snapshot_exists_eq:
  "snapshot_exists sys n s =
     (let c = list_snapshot_cmd n; rc = rc_of sys c (world s)
      in (if rc = 0 then Inr True else if rc = 1 then Inr False
          else Inl (ErrorReturnCode c rc), ran sys c s))"
  by (simp add: snapshot_exists_def try_except_def seq_def bind_def ret_def raise_def zfs_def
      sh_call_eq list_snapshot_cmd_def Let_def)

lemma dataset_exists_eq:
  "dataset_exists sys self dn s =
     (let c = list_filesystem_cmd (target_dataset self dn); rc = rc_of sys c (world s)
      in (if rc = 0 then Inr True else if rc = 1 then Inr False
          else Inl (ErrorReturnCode c rc), ran sys c s))"
  by (simp add: dataset_exists_def try_except_def seq_def bind_def ret_def raise_def zfs_def
      sh_call_eq list_filesystem_cmd_def Let_def)

lemma repository_exists_eq:
  "repository_exists sys self s =
     (let c = borg_info_cmd (heap s ! borg_env self); rc = rc_of sys c (world s)
      in (if rc = 0 then Inr True else if rc = 2 then Inr False
          else Inl (ErrorReturnCode c rc), ran sys c s))"
  by (simp add: repository_exists_def try_except_def seq_def bind_def ret_def raise_def borg_def
      dict_load_def sh_call_eq borg_info_cmd_def Let_def)

text \<open>
  Claim C8. Each existence probe (\<open>dataset_exists\<close>, \<open>_snapshot_exists\<close>,
  \<open>_repository_exists\<close>) runs its query once and returns \<open>True\<close> on exit code 0,
  returns \<open>False\<close> on the "not found" exit code (1 for the storage tool, 2 for
  \<open>borg info\<close>) without raising, and raises the \<open>ErrorReturnCode\<close> of the query for every
  other exit code.
\<close>

theorem existence_probes:
  "dataset_exists sys zm dn s =
     (let c = list_filesystem_cmd (target_dataset zm dn); rc = rc_of sys c (world s)
      in (if rc = 0 then Inr True else if rc = 1 then Inr False
          else Inl (ErrorReturnCode c rc), ran sys c s))
   \<and> snapshot_exists sys n s =
     (let c = list_snapshot_cmd n; rc = rc_of sys c (world s)
      in (if rc = 0 then Inr True else if rc = 1 then Inr False
          else Inl (ErrorReturnCode c rc), ran sys c s))
   \<and> repository_exists sys bm s =
     (let c = borg_info_cmd (heap s ! borg_env bm); rc = rc_of sys c (world s)
      in (if rc = 0 then Inr True else if rc = 2 then Inr False
          else Inl (ErrorReturnCode c rc), ran sys c s))"
  using dataset_exists_eq snapshot_exists_eq repository_exists_eq by blast

section \<open>Snapshots\<close>

lemma destroy_snapshot_eq:
  "destroy_snapshot sys zm tag dn r s =
     (let n = target_dataset zm dn @ ''@'' @ tag;
          probe = list_snapshot_cmd n; destroy = zfs_destroy_cmd r n;
          s1 = ran sys probe s; s2 = ran sys destroy s1; s3 = ran sys probe s2;
          rc1 = rc_of sys probe (world s); rc2 = rc_of sys destroy (world s1);
          rc3 = rc_of sys probe (world s2)
      in if rc1 = 1 then (Inr (), s1)
         else if rc1 \<noteq> 0 then (Inl (ErrorReturnCode probe rc1), s1)
         else if rc2 \<noteq> 0 then (Inl (ErrorReturnCode destroy rc2), s2)
         else if rc3 = 0 then
           (Inl (RuntimeError (''Verification failed! Snapshot '' @ quoted n
                               @ '' still exists after destruction.'')), s3)
         else if rc3 = 1 then (Inr (), s3)
         else (Inl (ErrorReturnCode probe rc3), s3))"
  by (simp add: destroy_snapshot_def snapshot_exists_eq zfs_eq bind_def seq_def ret_def raise_def
      Let_def zfs_destroy_cmd_def)

lemma create_snapshot_eq:
  "T \<noteq> [] \<Longrightarrow> create_snapshot sys zm (Some T) dn r s =
     (let n = target_dataset zm dn @ ''@'' @ T;
          probe = list_snapshot_cmd n; snap = zfs_snapshot_cmd r n;
          s1 = ran sys probe s; s2 = ran sys snap s1; s3 = ran sys probe s2;
          rc1 = rc_of sys probe (world s); rc2 = rc_of sys snap (world s1);
          rc3 = rc_of sys probe (world s2)
      in if rc1 = 0 then
           (Inl (FileExistsError (''Snapshot '' @ quoted n @ '' already exists.'')), s1)
         else if rc1 \<noteq> 1 then (Inl (ErrorReturnCode probe rc1), s1)
         else if rc2 \<noteq> 0 then (Inl (ErrorReturnCode snap rc2), s2)
         else if rc3 = 1 then
           (Inl (RuntimeError (''Verification failed! Snapshot '' @ quoted n
                               @ '' was not found after creation.'')), s3)
         else if rc3 = 0 then (Inr n, s3)
         else (Inl (ErrorReturnCode probe rc3), s3))"
  by (simp add: create_snapshot_def snapshot_exists_eq zfs_eq bind_def seq_def ret_def raise_def
      Let_def zfs_snapshot_cmd_def truthy_def)

lemma sim_rc:
  "rc_of (sim_system faults ro) c w = fst (fst (sim_run faults c w))"
  "after (sim_system faults ro) c w = snd (sim_run faults c w)"
  by (simp_all add: rc_of_def after_def sim_system_def)

text \<open>
  Claim C5. \<open>destroy_snapshot\<close> on a snapshot that the probe reports absent returns
  successfully having run nothing but the probe. On a snapshot that the probe reports
  present it runs the destroy command next; when that command exits 0 it probes again,
  and raises the \<open>RuntimeError\<close> of the verification if the snapshot is still reported
  present, and returns if it is reported absent.
\<close>

theorem destroy_snapshot_idempotent:
  "(let n = target_dataset zm dn @ ''@'' @ tag;
        probe = list_snapshot_cmd n; destroy = zfs_destroy_cmd r n;
        s1 = ran sys probe s; s2 = ran sys destroy s1; s3 = ran sys probe s2
    in (rc_of sys probe (world s) = 1 \<longrightarrow>
          destroy_snapshot sys zm tag dn r s = (Inr (), s1) \<and> new_events s s1 = [Exec probe 1])
     \<and> (rc_of sys probe (world s) = 0 \<longrightarrow>
          (\<exists>rc. take 2 (new_events s (snd (destroy_snapshot sys zm tag dn r s)))
                   = [Exec probe 0, Exec destroy rc])
          \<and> (rc_of sys destroy (world s1) = 0 \<longrightarrow>
               (rc_of sys probe (world s2) = 0 \<longrightarrow>
                  destroy_snapshot sys zm tag dn r s =
                    (Inl (RuntimeError (''Verification failed! Snapshot '' @ quoted n
                                        @ '' still exists after destruction.'')), s3))
             \<and> (rc_of sys probe (world s2) = 1 \<longrightarrow>
                  destroy_snapshot sys zm tag dn r s = (Inr (), s3)
                  \<and> new_events s s3 = [Exec probe 0, Exec destroy 0, Exec probe 1]))))"
  by (simp add: destroy_snapshot_eq Let_def)

theorem destroy_snapshot_idempotent_witness:
  "fst (destroy_snapshot (sim_system [] False) \<lparr>parent_dataset = ''pool/svcs''\<rparr> ''t1'' None True
          (state0 [] sim0)) = Inr ()
   \<and> fst (destroy_snapshot (sim_system [] False) \<lparr>parent_dataset = ''pool/svcs''\<rparr> ''t1'' None True
          (state0 [] (sim0\<lparr>sim_snapshots := [''pool/svcs@t1'']\<rparr>))) = Inr ()
   \<and> fst (destroy_snapshot (sim_system [(1, 0)] False) \<lparr>parent_dataset = ''pool/svcs''\<rparr> ''t1''
          None True (state0 [] (sim0\<lparr>sim_snapshots := [''pool/svcs@t1'']\<rparr>)))
       = Inl (RuntimeError (''Verification failed! Snapshot '' @ quoted ''pool/svcs@t1''
                            @ '' still exists after destruction.''))"
  using
    destroy_snapshot_idempotent [of "\<lparr>parent_dataset = ''pool/svcs''\<rparr>" None "''t1''" True
      "sim_system [] False" "state0 [] sim0"]
    destroy_snapshot_idempotent [of "\<lparr>parent_dataset = ''pool/svcs''\<rparr>" None "''t1''" True
      "sim_system [] False" "state0 [] (sim0\<lparr>sim_snapshots := [''pool/svcs@t1'']\<rparr>)"]
    destroy_snapshot_idempotent [of "\<lparr>parent_dataset = ''pool/svcs''\<rparr>" None "''t1''" True
      "sim_system [(1, 0)] False" "state0 [] (sim0\<lparr>sim_snapshots := [''pool/svcs@t1'']\<rparr>)"]
  by (simp add: Let_def target_dataset_def truthy_def state0_def sim0_def sim_rc sim_run_def
      sim_zfs_def list_snapshot_cmd_def zfs_destroy_cmd_def)

lemma sim_snapshot_layer:
  "snapshot_layer (sim_system [] ro) (\<lambda>n w. n \<in> set (sim_snapshots w))"
  by (simp add: snapshot_layer_def sim_system_def rc_of_def after_def sim_run_def sim_zfs_def
      list_snapshot_cmd_def zfs_snapshot_cmd_def Let_def)

lemma create_snapshot_twice_local:
  assumes "T \<noteq> []"
    and "rc_of sys (list_snapshot_cmd n) (world s) = 1"
    and "rc_of sys (zfs_snapshot_cmd r n) (world (ran sys (list_snapshot_cmd n) s)) = 0"
    and "rc_of sys (list_snapshot_cmd n)
           (world (ran sys (zfs_snapshot_cmd r n) (ran sys (list_snapshot_cmd n) s))) = 0"
    and "rc_of sys (list_snapshot_cmd n)
           (world (ran sys (list_snapshot_cmd n)
              (ran sys (zfs_snapshot_cmd r n) (ran sys (list_snapshot_cmd n) s)))) = 0"
    and "n = target_dataset zm dn @ ''@'' @ T"
    and "s3 = ran sys (list_snapshot_cmd n)
                (ran sys (zfs_snapshot_cmd r n) (ran sys (list_snapshot_cmd n) s))"
  shows "create_snapshot sys zm (Some T) dn r s = (Inr n, s3)"
    and "new_events s s3 =
           [Exec (list_snapshot_cmd n) 1, Exec (zfs_snapshot_cmd r n) 0,
            Exec (list_snapshot_cmd n) 0]"
    and "create_snapshot sys zm (Some T) dn r s3
           = (Inl (FileExistsError (''Snapshot '' @ quoted n @ '' already exists.'')),
              ran sys (list_snapshot_cmd n) s3)"
    and "new_events s3 (ran sys (list_snapshot_cmd n) s3) = [Exec (list_snapshot_cmd n) 0]"
  using assms by (simp_all add: create_snapshot_eq Let_def)

text \<open>
  Claim C4. On a storage tool that honours its snapshot contract, for every explicit tag
  \<open>T\<close> whose snapshot does not exist, \<open>create_snapshot\<close> succeeds: it probes, runs the
  snapshot command, verifies, and returns the canonical name \<open>dataset@T\<close>. A second call
  right after it raises \<open>FileExistsError\<close> after the probe alone: creation is not
  idempotent.
\<close>

theorem create_snapshot_not_idempotent:
  assumes "snapshot_layer sys ex" and "T \<noteq> []"
    and "\<not> ex (target_dataset zm dn @ ''@'' @ T) (world s)"
  shows "\<exists>s1 s2. create_snapshot sys zm (Some T) dn r s
                    = (Inr (target_dataset zm dn @ ''@'' @ T), s1)
           \<and> new_events s s1 =
               [Exec (list_snapshot_cmd (target_dataset zm dn @ ''@'' @ T)) 1,
                Exec (zfs_snapshot_cmd r (target_dataset zm dn @ ''@'' @ T)) 0,
                Exec (list_snapshot_cmd (target_dataset zm dn @ ''@'' @ T)) 0]
           \<and> ex (target_dataset zm dn @ ''@'' @ T) (world s1)
           \<and> create_snapshot sys zm (Some T) dn r s1
               = (Inl (FileExistsError (''Snapshot '' @ quoted (target_dataset zm dn @ ''@'' @ T)
                                        @ '' already exists.'')), s2)
           \<and> new_events s1 s2 = [Exec (list_snapshot_cmd (target_dataset zm dn @ ''@'' @ T)) 0]"
proof -
  define n where "n = target_dataset zm dn @ ''@'' @ T"
  define probe where "probe = list_snapshot_cmd n"
  define snap where "snap = zfs_snapshot_cmd r n"
  define s1 where "s1 = ran sys probe s"
  define s2 where "s2 = ran sys snap s1"
  define s3 where "s3 = ran sys probe s2"
  from assms(1) have probe_rc: "\<And>w. rc_of sys probe w = (if ex n w then 0 else 1)"
    and probe_keep: "\<And>w. ex n (after sys probe w) = ex n w"
    and snap_ok: "\<And>w. \<not> ex n w \<Longrightarrow> rc_of sys snap w = 0 \<and> ex n (after sys snap w)"
    unfolding snapshot_layer_def probe_def snap_def by blast+
  have a0: "\<not> ex n (world s)" using assms(3) unfolding n_def .
  have r1: "rc_of sys probe (world s) = 1" using a0 by (simp add: probe_rc)
  have a1: "\<not> ex n (world s1)" using a0 by (simp add: s1_def probe_keep)
  have r2: "rc_of sys snap (world s1) = 0" using snap_ok[OF a1] by blast
  have a2: "ex n (world s2)" using snap_ok[OF a1] by (simp add: s2_def)
  have r3: "rc_of sys probe (world s2) = 0" using a2 by (simp add: probe_rc)
  have a3: "ex n (world s3)" using a2 by (simp add: s3_def probe_keep)
  have r4: "rc_of sys probe (world s3) = 0" using a3 by (simp add: probe_rc)
  have s3_eq: "s3 = ran sys (list_snapshot_cmd n)
                (ran sys (zfs_snapshot_cmd r n) (ran sys (list_snapshot_cmd n) s))"
    unfolding s3_def s2_def s1_def probe_def snap_def ..
  note loc = create_snapshot_twice_local [OF assms(2)
      r1 [unfolded probe_def]
      r2 [unfolded s1_def probe_def snap_def]
      r3 [unfolded s2_def s1_def probe_def snap_def]
      r4 [unfolded s3_def s2_def s1_def probe_def snap_def] n_def s3_eq]
  show ?thesis
    using loc a3 unfolding n_def by blast
qed

theorem create_snapshot_not_idempotent_witness:
  "''pool/svcs@t1'' \<notin> set (sim_snapshots sim0)
   \<and> (\<exists>s1 s2. create_snapshot (sim_system [] False) \<lparr>parent_dataset = ''pool/svcs''\<rparr>
              (Some ''t1'') None True (state0 [] sim0) = (Inr ''pool/svcs@t1'', s1)
     \<and> ''pool/svcs@t1'' \<in> set (sim_snapshots (world s1))
     \<and> create_snapshot (sim_system [] False) \<lparr>parent_dataset = ''pool/svcs''\<rparr>
              (Some ''t1'') None True s1
         = (Inl (FileExistsError (''Snapshot '' @ quoted ''pool/svcs@t1'' @ '' already exists.'')),
            s2))"
proof -
  let ?zm = "\<lparr>parent_dataset = ''pool/svcs''\<rparr>"
  have t: "target_dataset ?zm None @ ''@'' @ ''t1'' = ''pool/svcs@t1''"
    by (simp add: target_dataset_def truthy_def)
  have absent: "target_dataset ?zm None @ ''@'' @ ''t1''
                  \<notin> set (sim_snapshots (world (state0 [] sim0)))"
    by (simp add: state0_def sim0_def)
  have ne: "''t1'' \<noteq> []" by simp
  from create_snapshot_not_idempotent [OF sim_snapshot_layer ne absent, of False True]
  show ?thesis unfolding t by (auto simp: sim0_def)
qed

section \<open>Archive repositories\<close>

lemma borg_eq:
  "borg sys a args fgd s =
     (let c = borg_cmd (heap s ! a) args fgd; rc = rc_of sys c (world s)
      in (if rc = 0 then Inr (snd (fst (sh_run sys c (world s))))
          else Inl (ErrorReturnCode c rc), ran sys c s))"
  by (simp add: borg_def borg_cmd_def dict_load_def bind_def sh_call_eq Let_def)

lemma trace_ran [simp]: "trace (ran sys c s) = trace s @ [Exec c (rc_of sys c (world s))]"
  by (simp add: ran_def)

lemma new_events_app [simp]: "trace s' = trace s @ evs \<Longrightarrow> new_events s s' = evs"
  by (simp add: new_events_def)

lemma initialize_if_needed_eq:
  "initialize_if_needed sys m s =
     (let e = heap s ! borg_env m; info = borg_info_cmd e; init = borg_init_cmd e;
          s1 = ran sys info s; s2 = ran sys init s1; s3 = ran sys info s2;
          rc1 = rc_of sys info (world s); rc2 = rc_of sys init (world s1);
          rc3 = rc_of sys info (world s2)
      in if rc1 = 0 then (Inr (), s1)
         else if rc1 \<noteq> 2 then (Inl (ErrorReturnCode info rc1), s1)
         else if rc2 \<noteq> 0 then (Inl (ErrorReturnCode init rc2), s2)
         else if rc3 = 2 then
           (Inl (RuntimeError (''FATAL: Repository initialization failed for '' @ repo_path m
                    @ ''. The repository was not found after the ''
                    @ quoted ''init'' @ '' command.'')), s3)
         else if rc3 = 0 then (Inr (), s3)
         else (Inl (ErrorReturnCode info rc3), s3))"
  by (simp add: initialize_if_needed_def initialize_repository_def execute_command_def
      repository_exists_eq borg_eq bind_def seq_def ret_def raise_def Let_def
      borg_init_cmd_def borg_cmd_def)

lemma is_init_simps [simp]:
  "is_init (Exec (borg_info_cmd e) rc) = False"
  "is_init (Exec (borg_init_cmd e) rc) = True"
  by (simp_all add: is_init_def borg_info_cmd_def borg_init_cmd_def)

text \<open>
  Claim C6. \<open>initialize_if_needed\<close> returns after the probe alone when the repository is
  reported present. When it is reported absent (exit code 2) it runs \<open>borg init\<close> next
  and, if that exits 0, probes again: it raises the \<open>RuntimeError\<close> of the verification
  if the repository is still not found, and returns if it is found. Whenever a call has
  returned and the repository is still reported present, the next call returns after the
  probe alone, so two calls in a row initialise at most once and both succeed.
\<close>

theorem initialize_if_needed_idempotent:
  "(let e = heap s ! borg_env m; info = borg_info_cmd e; init = borg_init_cmd e;
        s1 = ran sys info s; s2 = ran sys init s1; s3 = ran sys info s2
    in (rc_of sys info (world s) = 0 \<longrightarrow>
          initialize_if_needed sys m s = (Inr (), s1) \<and> new_events s s1 = [Exec info 0])
     \<and> (rc_of sys info (world s) = 2 \<longrightarrow>
          (\<exists>rc. take 2 (new_events s (snd (initialize_if_needed sys m s)))
                   = [Exec info 2, Exec init rc])
          \<and> (rc_of sys init (world s1) = 0 \<longrightarrow>
               (rc_of sys info (world s2) = 2 \<longrightarrow>
                  initialize_if_needed sys m s =
                    (Inl (RuntimeError (''FATAL: Repository initialization failed for ''
                       @ repo_path m @ ''. The repository was not found after the ''
                       @ quoted ''init'' @ '' command.'')), s3))
             \<and> (rc_of sys info (world s2) = 0 \<longrightarrow>
                  initialize_if_needed sys m s = (Inr (), s3)
                  \<and> new_events s s3 = [Exec info 2, Exec init 0, Exec info 0])))
     \<and> (\<forall>s'. initialize_if_needed sys m s = (Inr (), s') \<and> rc_of sys info (world s') = 0 \<longrightarrow>
           initialize_if_needed sys m s' = (Inr (), ran sys info s')
           \<and> new_events s' (ran sys info s') = [Exec info 0]
           \<and> length (filter is_init (new_events s (ran sys info s'))) \<le> 1))"
  by (auto simp add: initialize_if_needed_eq Let_def split: if_splits)

theorem initialize_if_needed_idempotent_witness:
  "fst (initialize_if_needed (sim_system [] False) \<lparr>repo_path = ''/backup/r'', borg_env = 0\<rparr>
          (state0 [[(''BORG_REPO'', ''/backup/r'')]]
             (sim0\<lparr>sim_repos := [(''/backup/r'', [])]\<rparr>))) = Inr ()
   \<and> fst (initialize_if_needed (sim_system [] False) \<lparr>repo_path = ''/backup/r'', borg_env = 0\<rparr>
          (state0 [[(''BORG_REPO'', ''/backup/r'')]] sim0)) = Inr ()
   \<and> fst (initialize_if_needed (sim_system [(1, 0)] False)
            \<lparr>repo_path = ''/backup/r'', borg_env = 0\<rparr>
            (state0 [[(''BORG_REPO'', ''/backup/r'')]] sim0))
       = Inl (RuntimeError (''FATAL: Repository initialization failed for /backup/r''
                @ ''. The repository was not found after the '' @ quoted ''init''
                @ '' command.''))"
  using
    initialize_if_needed_idempotent [of "state0 [[(''BORG_REPO'', ''/backup/r'')]]
             (sim0\<lparr>sim_repos := [(''/backup/r'', [])]\<rparr>)"
      "\<lparr>repo_path = ''/backup/r'', borg_env = 0\<rparr>" "sim_system [] False",
      unfolded Let_def, THEN conjunct1]
    initialize_if_needed_idempotent [of "state0 [[(''BORG_REPO'', ''/backup/r'')]] sim0"
      "\<lparr>repo_path = ''/backup/r'', borg_env = 0\<rparr>" "sim_system [] False",
      unfolded Let_def, THEN conjunct2, THEN conjunct1]
    initialize_if_needed_idempotent [of "state0 [[(''BORG_REPO'', ''/backup/r'')]] sim0"
      "\<lparr>repo_path = ''/backup/r'', borg_env = 0\<rparr>" "sim_system [(1, 0)] False",
      unfolded Let_def, THEN conjunct2, THEN conjunct1]
  by (simp add: state0_def sim0_def sim_rc sim_run_def sim_borg_def borg_info_cmd_def
      borg_init_cmd_def)

lemma map_of_dict_set: "map_of (dict_set k v d) k' = (if k' = k then Some v else map_of d k')"
  by (induction d) auto

lemma check_repository_eq:
  "check_repository sys m v s =
     (let e = heap s ! borg_env m;
          original_rsh = (case dict_get e ''BORG_RSH'' of None \<Rightarrow> [] | Some x \<Rightarrow> x);
          le = (if contains ''ssh '' original_rsh
                then dict_set ''BORG_RSH''
                       (replace_first ''ssh '' ''ssh -o ServerAliveInterval=60 '' original_rsh) e
                else e);
          c = borg_check_cmd le v;
          rc = rc_of sys c (world s)
      in (if rc = 0 then Inr () else Inl (ErrorReturnCode c rc),
          ran sys c (s\<lparr>heap := heap s @ [le]\<rparr>)))"
  by (simp add: check_repository_def borg_eq bind_def seq_def ret_def dict_copy_def
      dict_load_def dict_store_def borg_check_cmd_def Let_def ran_def)

lemma execute_command_eq:
  "execute_command sys m args fgd s =
     (let c = borg_cmd (heap s ! borg_env m) args fgd; rc = rc_of sys c (world s)
      in (if rc = 0 then Inr (snd (fst (sh_run sys c (world s))))
          else Inl (ErrorReturnCode c rc), ran sys c s))"
  by (simp add: execute_command_def borg_eq)

text \<open>
  Claim C10. \<open>check_repository\<close>, whether it returns or raises, leaves every dictionary
  that existed before the call as it was, in particular the environment the manager
  stores: the keep-alive option is written to a fresh copy, which is the environment of the
  check command alone (it differs from the stored one at \<open>BORG_RSH\<close> only, where the first
  \<open>ssh\<close> gets \<open>-o ServerAliveInterval=60\<close>). Every command the manager runs
  afterwards runs with the stored environment.
\<close>

theorem check_repository_keeps_env:
  assumes "borg_env m < length (heap s)"
  shows "(let s' = snd (check_repository sys m v s); e = heap s ! borg_env m
          in heap s' ! borg_env m = e
           \<and> take (length (heap s)) (heap s') = heap s
           \<and> (\<exists>le rc. new_events s s' = [Exec (borg_check_cmd le v) rc]
                \<and> dict_get le ''BORG_RSH'' =
                    (case dict_get e ''BORG_RSH'' of
                       None \<Rightarrow> None
                     | Some x \<Rightarrow> if contains ''ssh '' x
                         then Some (replace_first ''ssh '' ''ssh -o ServerAliveInterval=60 '' x)
                         else Some x)
                \<and> (\<forall>k. k \<noteq> ''BORG_RSH'' \<longrightarrow> dict_get le k = dict_get e k))
           \<and> (\<forall>args fgd. \<exists>rc. new_events s' (snd (execute_command sys m args fgd s'))
                               = [Exec (borg_cmd e args fgd) rc]))"
  using assms
  by (auto simp add: check_repository_eq execute_command_eq Let_def nth_append dict_get_def
      map_of_dict_set split: option.splits)


theorem check_repository_keeps_env_witness:
  "(0::nat) < length [[(''BORG_RSH'', ''ssh -i key''), (''BORG_REPO'', ''/backup/r'')]]
   \<and> heap (snd (check_repository (sim_system [] False)
                  \<lparr>repo_path = ''/backup/r'', borg_env = 0\<rparr> False
                  (state0 [[(''BORG_RSH'', ''ssh -i key''), (''BORG_REPO'', ''/backup/r'')]]
                     sim0))) ! 0
       = [(''BORG_RSH'', ''ssh -i key''), (''BORG_REPO'', ''/backup/r'')]"
  using check_repository_keeps_env [of "\<lparr>repo_path = ''/backup/r'', borg_env = 0\<rparr>"
      "state0 [[(''BORG_RSH'', ''ssh -i key''), (''BORG_REPO'', ''/backup/r'')]] sim0"
      "sim_system [] False" False]
  by (simp add: Let_def state0_def)

lemma path_mkdir_eq:
  "path_mkdir sys d s =
     (if fst (fs_mkdir sys d (world s)) then Inr () else Inl (OSError d), mkdired sys d s)"
  by (simp add: path_mkdir_def mkdired_def Let_def split: prod.splits)

lemma unlink_logged_eq: "unlink_logged sys p s = (Inr (), unlinked sys p s)"
  by (simp add: unlink_logged_def path_unlink_def try_except_def unlinked_def ret_def Let_def
      split: prod.splits)

lemma export_recovery_key_eq:
  "export_recovery_key sys m p s =
     (let d = path_parent p; e = heap s ! borg_env m;
          export = key_export_cmd e (repo_path m) p; verify = key_verify_cmd e p;
          s1 = mkdired sys d s; s2 = ran sys export s1;
          s3 = s2\<lparr>heap := heap s @ [dict_set ''BORG_KEY_FILE'' p e]\<rparr>;
          s4 = ran sys verify s3;
          rc1 = rc_of sys export (world s1); rc2 = rc_of sys verify (world s2)
      in if \<not> fst (fs_mkdir sys d (world s)) then (Inl (OSError d), s1)
         else if rc1 \<noteq> 0 then
           (Inl (ErrorReturnCode export rc1),
            if fs_exists sys p (world s2) then unlinked sys p s2 else s2)
         else if rc2 \<noteq> 0 then (Inl (ErrorReturnCode verify rc2), unlinked sys p s4)
         else (Inr (), s4))"
  by (simp add: export_recovery_key_def execute_command_eq borg_eq path_mkdir_eq
      unlink_logged_eq path_exists_def bind_def seq_def ret_def raise_def try_except_def
      dict_copy_def dict_store_def key_export_cmd_def key_verify_cmd_def Let_def mkdired_def
      ran_def)

lemma trace_unlinked [simp]:
  "trace (unlinked sys p s) = trace s @ [Unlink p (fst (fs_unlink sys p (world s)))]"
  "world (unlinked sys p s) = snd (fs_unlink sys p (world s))"
  by (simp_all add: unlinked_def)

lemma trace_mkdired [simp]:
  "trace (mkdired sys p s) = trace s @ [Mkdir p (fst (fs_mkdir sys p (world s)))]"
  "world (mkdired sys p s) = snd (fs_mkdir sys p (world s))"
  "heap (mkdired sys p s) = heap s"
  by (simp_all add: mkdired_def)

lemma sim_unlink_removes: "unlink_removes (sim_system faults ro)"
  by (simp add: unlink_removes_def sim_system_def sim_unlink_def)

text \<open>
  Claim C3, as amended. On a file system where a deletion that succeeds removes the file:
  when \<open>export_recovery_key\<close> returns, the export and the verification listing (run with
  the exported file as \<open>BORG_KEY_FILE\<close> on top of the stored environment) both exited 0
  and the manager has run nothing else, so it has not deleted the file. When the export or
  the verification fails, the error raised is the \<open>ErrorReturnCode\<close> of that command;
  after a failed verification the last action is the deletion of the key file; and the
  key file is absent afterwards unless its deletion itself failed, which is swallowed.
\<close>

theorem export_recovery_key_outcome:
  assumes "unlink_removes sys"
  shows "(let r = fst (export_recovery_key sys m p s); s' = snd (export_recovery_key sys m p s);
              e = heap s ! borg_env m;
              export = key_export_cmd e (repo_path m) p; verify = key_verify_cmd e p
          in (r = Inr () \<longrightarrow>
                new_events s s' = [Mkdir (path_parent p) True, Exec export 0, Exec verify 0])
           \<and> (\<forall>c rc. r = Inl (ErrorReturnCode c rc) \<longrightarrow>
                rc \<noteq> 0
                \<and> (c = export \<and> Exec export rc \<in> set (new_events s s')
                   \<or> c = verify \<and> Exec verify rc \<in> set (new_events s s')
                      \<and> (\<exists>ok. last (new_events s s') = Unlink p ok))
                \<and> (\<not> fs_exists sys p (world s')
                   \<or> last (new_events s s') = Unlink p False)))"
  using assms
  by (auto simp add: export_recovery_key_eq Let_def unlink_removes_def new_events_def)

theorem export_recovery_key_outcome_witness:
  "unlink_removes (sim_system [(1, 2)] False)
   \<and> \<not> fs_exists (sim_system [(1, 2)] False) ''/keys/r.key''
        (world (snd (export_recovery_key (sim_system [(1, 2)] False)
          \<lparr>repo_path = ''/backup/r'', borg_env = 0\<rparr> ''/keys/r.key''
          (state0 [[(''BORG_PASSPHRASE'', ''pw''), (''BORG_REPO'', ''/backup/r'')]]
             (sim0\<lparr>sim_repos := [(''/backup/r'', [])]\<rparr>)))))"
  using export_recovery_key_outcome [OF sim_unlink_removes,
      of "[(1, 2)]" False "\<lparr>repo_path = ''/backup/r'', borg_env = 0\<rparr>" "''/keys/r.key''"
         "state0 [[(''BORG_PASSPHRASE'', ''pw''), (''BORG_REPO'', ''/backup/r'')]]
             (sim0\<lparr>sim_repos := [(''/backup/r'', [])]\<rparr>)"]
    sim_unlink_removes [of "[(1, 2)]" False]
  by (simp add: export_recovery_key_eq Let_def state0_def sim0_def sim_rc sim_run_def
      sim_borg_def sim_unlink_def sim_system_def key_export_cmd_def key_verify_cmd_def
      borg_cmd_def mkdired_def unlinked_def ran_def rc_of_def after_def)

text \<open>
  Claim C3 as stated fails: when the verification fails and the deletion of the key file
  fails too (here every deletion fails), the call raises the verification error and the
  unverified key file is still there.
\<close>

theorem export_recovery_key_keeps_unverified_key:
  "fst (export_recovery_key (sim_system [(1, 2)] True)
          \<lparr>repo_path = ''/backup/r'', borg_env = 0\<rparr> ''/keys/r.key''
          (state0 [[(''BORG_PASSPHRASE'', ''pw''), (''BORG_REPO'', ''/backup/r'')]]
             (sim0\<lparr>sim_repos := [(''/backup/r'', [])]\<rparr>)))
     = Inl (ErrorReturnCode
              (key_verify_cmd [(''BORG_PASSPHRASE'', ''pw''), (''BORG_REPO'', ''/backup/r'')]
                 ''/keys/r.key'') 2)
   \<and> fs_exists (sim_system [(1, 2)] True) ''/keys/r.key''
        (world (snd (export_recovery_key (sim_system [(1, 2)] True)
          \<lparr>repo_path = ''/backup/r'', borg_env = 0\<rparr> ''/keys/r.key''
          (state0 [[(''BORG_PASSPHRASE'', ''pw''), (''BORG_REPO'', ''/backup/r'')]]
             (sim0\<lparr>sim_repos := [(''/backup/r'', [])]\<rparr>)))))"
  by (simp add: export_recovery_key_eq Let_def state0_def sim0_def sim_rc sim_run_def
      sim_borg_def sim_unlink_def sim_system_def key_export_cmd_def key_verify_cmd_def
      borg_cmd_def mkdired_def unlinked_def ran_def rc_of_def after_def)

section \<open>Events of the pipeline\<close>

lemma emitsI:
  assumes "\<And>s. \<exists>h evs. heap (snd (m s)) = heap s @ h \<and> trace (snd (m s)) = trace s @ evs
                   \<and> list_all P evs"
  shows "emits P m"
  using assms unfolding emits_def by blast

lemma emitsD:
  assumes "emits P m"
  obtains h evs where "heap (snd (m s)) = heap s @ h" "trace (snd (m s)) = trace s @ evs"
    "list_all P evs"
  using assms unfolding emits_def by blast

lemma emits_at:
  "emits P m \<Longrightarrow> \<exists>h evs. heap (snd (m s)) = heap s @ h \<and> trace (snd (m s)) = trace s @ evs
                   \<and> list_all P evs"
  unfolding emits_def by blast

lemma emits_ret [intro!]: "emits P (ret x)"
  by (rule emitsI) (simp add: ret_def)

lemma emits_raise [intro!]: "emits P (raise e)"
  by (rule emitsI) (simp add: raise_def)

lemma emits_bind [intro!]:
  assumes "emits P m" and "\<And>x. emits P (f x)"
  shows "emits P (bind m f)"
proof (rule emitsI)
  fix s
  obtain r s1 where ms: "m s = (r, s1)" by (cases "m s")
  obtain h evs where 1: "heap s1 = heap s @ h" "trace s1 = trace s @ evs" "list_all P evs"
    using emitsD [OF assms(1), of s] ms by auto
  show "\<exists>h evs. heap (snd (bind m f s)) = heap s @ h
          \<and> trace (snd (bind m f s)) = trace s @ evs \<and> list_all P evs"
  proof (cases r)
    case (Inl e)
    then show ?thesis using ms 1 by (auto simp: bind_def)
  next
    case (Inr x)
    obtain h' evs' where 2: "heap (snd (f x s1)) = heap s1 @ h'"
      "trace (snd (f x s1)) = trace s1 @ evs'" "list_all P evs'"
      using emitsD [OF assms(2), of x s1] by auto
    have "heap (snd (bind m f s)) = heap s @ (h @ h')"
      "trace (snd (bind m f s)) = trace s @ (evs @ evs')" "list_all P (evs @ evs')"
      using Inr ms 1 2 by (auto simp: bind_def)
    then show ?thesis by blast
  qed
qed

lemma emits_seq [intro!]: "emits P m \<Longrightarrow> emits P k \<Longrightarrow> emits P (seq m k)"
  unfolding seq_def by (rule emits_bind)

lemma emits_try_except [intro!]:
  assumes "emits P m" and "\<And>e. emits P (h e)"
  shows "emits P (try_except m h)"
proof (rule emitsI)
  fix s
  obtain r s1 where ms: "m s = (r, s1)" by (cases "m s")
  obtain hp evs where 1: "heap s1 = heap s @ hp" "trace s1 = trace s @ evs" "list_all P evs"
    using emitsD [OF assms(1), of s] ms by auto
  show "\<exists>hp evs. heap (snd (try_except m h s)) = heap s @ hp
          \<and> trace (snd (try_except m h s)) = trace s @ evs \<and> list_all P evs"
  proof (cases r)
    case (Inr x)
    then show ?thesis using ms 1 by (auto simp: try_except_def)
  next
    case (Inl e)
    obtain h' evs' where 2: "heap (snd (h e s1)) = heap s1 @ h'"
      "trace (snd (h e s1)) = trace s1 @ evs'" "list_all P evs'"
      using emitsD [OF assms(2), of e s1] by auto
    have "heap (snd (try_except m h s)) = heap s @ (hp @ h')"
      "trace (snd (try_except m h s)) = trace s @ (evs @ evs')" "list_all P (evs @ evs')"
      using Inl ms 1 2 by (auto simp: try_except_def)
    then show ?thesis by blast
  qed
qed

lemma emits_if [intro!]: "emits P a \<Longrightarrow> emits P b \<Longrightarrow> emits P (if c then a else b)"
  by simp

lemma emits_sh_call [intro!]: "(\<And>rc. P (Exec c rc)) \<Longrightarrow> emits P (sh_call sys oks c)"
  by (rule emitsI) (simp add: sh_call_eq ran_def)

lemma emits_log [intro!]: "P (Log l msg) \<Longrightarrow> emits P (log l msg)"
  by (rule emitsI) (simp add: log_def emit_def)

lemma emits_datetime_now [intro!]: "emits P (datetime_now sys)"
  by (rule emitsI) (simp add: datetime_now_def split: prod.splits)

lemma emits_dict_load [intro!]: "emits P (dict_load a)"
  by (rule emitsI) (simp add: dict_load_def)

lemma emits_dict_copy [intro!]: "emits P (dict_copy a)"
  by (rule emitsI) (simp add: dict_copy_def)

lemma emits_for_each [intro!]: "(\<And>x. emits P (body x)) \<Longrightarrow> emits P (for_each body xs)"
  by (induction xs) auto

lemma emits_run_each [intro!]:
  "(\<And>f rc. P (Exec (Cmd ([''sudo'', ''docker'', ''compose'', ''-f'', f, command] @ args)
                       None False) rc))
   \<Longrightarrow> emits P (run_each sys command args oks fs)"
  by (induction fs) auto

lemma emits_exn_case [intro!]:
  "(\<And>c rc. emits P (f c rc)) \<Longrightarrow> emits P g
   \<Longrightarrow> emits P (case e of ErrorReturnCode c rc \<Rightarrow> f c rc | RuntimeError x \<Rightarrow> g
        | FileExistsError x \<Rightarrow> g | ValueError x \<Rightarrow> g | OSError x \<Rightarrow> g)"
  by (cases e) auto

lemma emits_run_command_on_all:
  "(\<And>f rc. P (Exec (Cmd ([''sudo'', ''docker'', ''compose'', ''-f'', f, command] @ args)
                       None False) rc))
   \<Longrightarrow> emits P (run_command_on_all sys command args oks)"
proof (rule emitsI)
  fix s
  assume a: "\<And>f rc. P (Exec (Cmd ([''sudo'', ''docker'', ''compose'', ''-f'', f, command] @ args)
                       None False) rc)"
  show "\<exists>h evs. heap (snd (run_command_on_all sys command args oks s)) = heap s @ h
           \<and> trace (snd (run_command_on_all sys command args oks s)) = trace s @ evs
           \<and> list_all P evs"
  proof (cases "fs_compose_files sys (world s) = []")
    case True
    then show ?thesis by (simp add: run_command_on_all_def)
  next
    case False
    have "emits P (run_each sys command args oks (fs_compose_files sys (world s)))"
      by (rule emits_run_each) (rule a)
    from emits_at [OF this, of s] False show ?thesis
      by (simp add: run_command_on_all_def Let_def)
  qed
qed

lemma emits_create_snapshot:
  assumes "\<And>a rc. P (Exec (Cmd ([''sudo'', ''zfs'', ''list''] @ a) None False) rc)"
      and "\<And>a rc. P (Exec (Cmd ([''sudo'', ''zfs'', ''snapshot''] @ a) None False) rc)"
  shows "emits P (create_snapshot sys zm tag dn r)"
  unfolding create_snapshot_def snapshot_exists_def zfs_def Let_def
  using assms by auto


lemma admits_host: "admits P \<Longrightarrow> admits_host P"
  unfolding admits_def by simp

lemma admits_docker:
  "admits_host P \<Longrightarrow> P (Exec (Cmd (''sudo'' # ''docker'' # ''compose'' # a) None g) rc)"
  unfolding admits_host_def by simp

lemma admits_borg:
  "admits P \<Longrightarrow> P (Exec (Cmd (''sudo'' # ''-E'' # ''borg'' # a) (Some e) f) rc)"
  unfolding admits_def by simp

lemma admits_borg_cmd: "admits P \<Longrightarrow> P (Exec (borg_cmd e a f) rc)"
  unfolding borg_cmd_def by (simp add: admits_borg)

lemma admits_zfs_list:
  "admits_host P \<Longrightarrow> P (Exec (Cmd (''sudo'' # ''zfs'' # ''list'' # a) None False) rc)"
  unfolding admits_host_def by simp

lemma admits_zfs_snapshot:
  "admits_host P \<Longrightarrow> P (Exec (Cmd (''sudo'' # ''zfs'' # ''snapshot'' # a) None False) rc)"
  unfolding admits_host_def by simp

lemma admits_plain_command: "admits plain_command"
  by (simp add: admits_def admits_host_def plain_command_def is_exec_def is_destroy_def)

lemma emits_stop_all: "admits_host P \<Longrightarrow> emits P (stop_all sys)"
  unfolding stop_all_def by (rule emits_run_command_on_all) (simp add: admits_docker)

lemma emits_up_all: "admits_host P \<Longrightarrow> emits P (up_all sys)"
  unfolding up_all_def by (rule emits_run_command_on_all) (simp add: admits_docker)

lemma emits_create_snapshot': "admits_host P \<Longrightarrow> emits P (create_snapshot sys zm tag dn r)"
  unfolding create_snapshot_def snapshot_exists_def zfs_def Let_def
  by (auto simp: admits_zfs_list admits_zfs_snapshot)

lemma emits_get_datasets: "admits_host P \<Longrightarrow> emits P (get_datasets sys zm)"
  unfolding get_datasets_def zfs_def
  by (auto simp: admits_zfs_list)

lemma BorgBackupRepoManager_init_eq:
  "BorgBackupRepoManager_init rp b s =
     (let missing_vars = filter (\<lambda>var. \<not> truthy (dict_get (heap s ! b) var))
                           [''BORG_PASSPHRASE'', ''BORG_RSH'']
      in if missing_vars \<noteq> [] then
           (Inl (ValueError
              (''BorgBackupRepoManager is missing required environment configuration: ''
               @ join '', '' missing_vars)), s)
         else (Inr \<lparr>repo_path = rp, borg_env = length (heap s)\<rparr>,
               s\<lparr>heap := heap s @ [dict_set ''BORG_REPO'' rp (heap s ! b)]\<rparr>))"
  by (simp add: BorgBackupRepoManager_init_def bind_def seq_def ret_def raise_def dict_load_def
      dict_copy_def dict_store_def Let_def)

lemma emits_BorgBackupRepoManager_init: "emits P (BorgBackupRepoManager_init rp b)"
  by (rule emitsI) (simp add: BorgBackupRepoManager_init_eq Let_def)

lemma emits_borg: "admits P \<Longrightarrow> emits P (borg sys a args f)"
  unfolding borg_def by (auto simp: admits_borg)

lemma emits_initialize_if_needed: "admits P \<Longrightarrow> emits P (initialize_if_needed sys m)"
  unfolding initialize_if_needed_def repository_exists_def initialize_repository_def
    execute_command_def
  by (auto simp: emits_borg)

lemma emits_check_repository: "admits P \<Longrightarrow> emits P (check_repository sys m v)"
  by (rule emitsI) (simp add: check_repository_eq Let_def ran_def borg_check_cmd_def
      admits_borg_cmd)

lemma emits_backup_single_dataset: "admits P \<Longrightarrow> emits P (backup_single_dataset sys self d)"
  unfolding backup_single_dataset_def backup_single_snapshot_def build_archive_name_def
    create_archive_def prune_archives_def execute_command_def Let_def
  by (auto simp: emits_borg emits_initialize_if_needed emits_BorgBackupRepoManager_init)

lemma emits_check_single_repository:
  "admits P \<Longrightarrow> emits P (check_single_repository sys self rp)"
  unfolding check_single_repository_def
  by (auto simp: emits_check_repository emits_BorgBackupRepoManager_init)

lemma emits_orchestrate: "admits P \<Longrightarrow> emits P (orchestrate_dataset_backups sys self)"
  unfolding orchestrate_dataset_backups_def
  by (auto simp: emits_get_datasets admits_host emits_backup_single_dataset
      emits_check_single_repository)

section \<open>The backup pipeline\<close>

lemma backup_failed_eq:
  "backup_failed c tag e s =
     (Inl e, s\<lparr>trace := trace s @ failure_marker # (if c then [left_marker tag] else [])\<rparr>)"
  by (simp add: backup_failed_def seq_def bind_def log_def emit_def raise_def ret_def
      failure_marker_def left_marker_def)

lemma log_eq: "log l msg s = (Inr (), s\<lparr>trace := trace s @ [Log l msg]\<rparr>)"
  by (simp add: log_def emit_def)

lemma seq_log: "seq (log l msg) m s = m (s\<lparr>trace := trace s @ [Log l msg]\<rparr>)"
  by (simp add: seq_def bind_def log_eq)

lemma emits_shift:
  assumes "emits P m"
  shows "\<exists>h evs. heap (snd (m (s\<lparr>trace := trace s @ pre\<rparr>))) = heap s @ h
           \<and> trace (snd (m (s\<lparr>trace := trace s @ pre\<rparr>))) = trace s @ pre @ evs
           \<and> list_all P evs"
  using emits_at [OF assms, of "s\<lparr>trace := trace s @ pre\<rparr>"] by simp

lemma stop_step_events:
  assumes "admits_host P"
  shows "\<exists>h evs. heap (snd (stop_step sys s)) = heap s @ h
     \<and> trace (snd (stop_step sys s)) =
         trace s @ [Log INFO ''====== Orchestrated Backup Process Starting ======'',
           Log INFO ''--> Step 1: Stopping all Docker services for data consistency.''] @ evs
     \<and> list_all P evs"
  using emits_shift [OF emits_stop_all [OF assms], of sys s
      "[Log INFO ''====== Orchestrated Backup Process Starting ======'',
        Log INFO ''--> Step 1: Stopping all Docker services for data consistency.'']"]
  by (simp add: stop_step_def seq_log)

lemma snapshot_step_events:
  assumes "admits_host P"
  shows "\<exists>h evs. heap (snd (snapshot_step sys self s)) = heap s @ h
     \<and> trace (snd (snapshot_step sys self s)) =
         trace s @ [Log INFO ''--> Step 2: Creating recursive ZFS snapshot for all datasets.'']
           @ evs
     \<and> list_all P evs"
  using emits_shift [OF emits_create_snapshot' [OF assms], of sys "zfs_manager self"
      "Some (snapshot_tag self)" None True s
      "[Log INFO ''--> Step 2: Creating recursive ZFS snapshot for all datasets.'']"]
  by (simp add: snapshot_step_def seq_log)

lemma restart_step_events:
  assumes "admits_host P"
  shows "\<exists>h evs. heap (snd (restart_step sys s)) = heap s @ h
     \<and> trace (snd (restart_step sys s)) = trace s @ [restart_marker] @ evs
     \<and> list_all P evs"
  using emits_shift [OF emits_up_all [OF assms], of sys s "[restart_marker]"]
  by (simp add: restart_step_def seq_log restart_marker_def)

lemma cleanup_step_events:
  "\<exists>evs. heap (snd (cleanup_step sys self s)) = heap s
     \<and> trace (snd (cleanup_step sys self s)) =
         trace s @ [Log INFO ''--> Step 4: All backups successful. Cleaning up ZFS snapshot.'']
           @ evs
     \<and> list_all is_exec evs \<and> length (filter is_destroy evs) \<le> 1"
  by (simp add: cleanup_step_def seq_log destroy_snapshot_eq Let_def ran_def is_exec_def
      is_destroy_def list_snapshot_cmd_def zfs_destroy_cmd_def)

lemma backup_all_unfold:
  assumes "stop_step sys s = (Inr (), s1)" and "snapshot_step sys self s1 = (r2, s2)"
    and "restart_step sys s2 = (r3, s3)"
    and "orchestrate_dataset_backups sys self s3 = (r4, s4)"
    and "cleanup_step sys self s4 = (r5, s5)"
  shows "backup_all sys self s =
     (case r3 of
        Inl e \<Rightarrow> backup_failed (case r2 of Inl _ \<Rightarrow> False | Inr _ \<Rightarrow> True) (snapshot_tag self) e s3
      | Inr _ \<Rightarrow>
         (case r2 of
            Inl e \<Rightarrow> backup_failed False (snapshot_tag self) e s3
          | Inr _ \<Rightarrow>
             (case r4 of
                Inl e \<Rightarrow> backup_failed True (snapshot_tag self) e s4
              | Inr _ \<Rightarrow>
                 (case r5 of
                    Inl e \<Rightarrow> backup_failed True (snapshot_tag self) e s5
                  | Inr _ \<Rightarrow>
                      log INFO ''====== Orchestrated Backup Process Finished Successfully ======''
                        s5))))"
  using assms by (simp add: backup_all_def Let_def split: sum.splits)


lemma count_plain:
  "list_all plain_command evs \<Longrightarrow> count_list evs (Log l msg) = 0"
  by (induction evs) (auto simp: plain_command_def is_exec_def)

lemma count_exec:
  "list_all is_exec evs \<Longrightarrow> count_list evs (Log l msg) = 0"
  by (induction evs) (auto simp: is_exec_def)

lemma destroy_plain:
  "list_all plain_command evs \<Longrightarrow> filter is_destroy evs = []"
  by (induction evs) (auto simp: plain_command_def)

lemma new_events_trans:
  assumes "trace s1 = trace s @ a" and "trace s2 = trace s1 @ b"
  shows "new_events s s2 = a @ b" and "new_events s1 s2 = b" and "new_events s s1 = a"
  using assms by (simp_all add: new_events_def)

text \<open>
  Claim C2. In every run in which the services have been stopped (the stop step has
  returned), the restart step runs exactly once: its events follow those of the snapshot
  step directly, whatever the outcome of that step, and its marker occurs once in the
  events of the whole run. If the restart raises, that exception is what the run raises;
  if the snapshot step raised and the restart returns, the run raises the exception of
  the snapshot step, and between the restart and the return to the caller there is
  nothing but the report of the failure.
\<close>

theorem restart_exactly_once:
  assumes "stop_step sys s = (Inr (), s1)"
  shows "(let r2 = fst (snapshot_step sys self s1); s2 = snd (snapshot_step sys self s1);
              r3 = fst (restart_step sys s2); s3 = snd (restart_step sys s2);
              r = fst (backup_all sys self s); s' = snd (backup_all sys self s)
          in new_events s s' = new_events s s2 @ new_events s2 s3 @ new_events s3 s'
           \<and> take 1 (new_events s2 s3) = [restart_marker]
           \<and> count_list (new_events s s') restart_marker = 1
           \<and> (\<forall>e. r3 = Inl e \<longrightarrow> r = Inl e)
           \<and> (\<forall>e. r2 = Inl e \<and> r3 = Inr () \<longrightarrow>
                 r = Inl e \<and> new_events s3 s' = [failure_marker]))"
proof -
  obtain r2 s2 where snap: "snapshot_step sys self s1 = (r2, s2)"
    by (cases "snapshot_step sys self s1")
  obtain r3 s3 where rest: "restart_step sys s2 = (r3, s3)"
    by (cases "restart_step sys s2")
  obtain r4 s4 where orch: "orchestrate_dataset_backups sys self s3 = (r4, s4)"
    by (cases "orchestrate_dataset_backups sys self s3")
  obtain r5 s5 where clean: "cleanup_step sys self s4 = (r5, s5)"
    by (cases "cleanup_step sys self s4")
  note P = admits_plain_command
  note H = admits_host [OF P]
  obtain e1 where t1: "trace s1 = trace s @ e1" "count_list e1 restart_marker = 0"
    using stop_step_events [OF H, of sys s] assms
    by (auto simp: restart_marker_def count_plain)
  obtain e2 where t2: "trace s2 = trace s1 @ e2" "count_list e2 restart_marker = 0"
    using snapshot_step_events [OF H, of sys self s1] snap
    by (auto simp: restart_marker_def count_plain)
  obtain e3 where t3: "trace s3 = trace s2 @ restart_marker # e3"
    "count_list e3 restart_marker = 0"
    using restart_step_events [OF H, of sys s2] rest
    by (auto simp: restart_marker_def count_plain)
  obtain e4 where t4: "trace s4 = trace s3 @ e4" "count_list e4 restart_marker = 0"
    using emits_at [OF emits_orchestrate [OF P], of sys self s3] orch
    by (auto simp: restart_marker_def count_plain)
  obtain e5 where t5: "trace s5 = trace s4 @ e5" "count_list e5 restart_marker = 0"
    using cleanup_step_events [of sys self s4] clean
    by (auto simp: restart_marker_def count_exec)
  obtain rest_evs where t6: "trace (snd (backup_all sys self s)) = trace s3 @ rest_evs"
    "count_list rest_evs restart_marker = 0"
    "\<forall>e. r3 = Inl e \<longrightarrow> fst (backup_all sys self s) = Inl e"
    "\<forall>e. r2 = Inl e \<and> r3 = Inr () \<longrightarrow>
        fst (backup_all sys self s) = Inl e \<and> rest_evs = [failure_marker]"
  proof -
    have "\<exists>rest_evs. trace (snd (backup_all sys self s)) = trace s3 @ rest_evs
      \<and> count_list rest_evs restart_marker = 0
      \<and> (\<forall>e. r3 = Inl e \<longrightarrow> fst (backup_all sys self s) = Inl e)
      \<and> (\<forall>e. r2 = Inl e \<and> r3 = Inr () \<longrightarrow>
            fst (backup_all sys self s) = Inl e \<and> rest_evs = [failure_marker])"
      using t4 t5
      by (cases r3; cases r2; cases r4; cases r5)
         (simp_all add: backup_all_unfold [OF assms snap rest orch clean] backup_failed_eq
            log_eq restart_marker_def failure_marker_def left_marker_def)
    then show ?thesis using that by blast
  qed
  have a: "new_events s s2 = e1 @ e2" "new_events s2 s3 = restart_marker # e3"
    "new_events s3 (snd (backup_all sys self s)) = rest_evs"
    "new_events s (snd (backup_all sys self s)) = e1 @ e2 @ (restart_marker # e3) @ rest_evs"
    using t1 t2 t3 t6 by (simp_all add: new_events_def)
  show ?thesis
    unfolding Let_def snap rest fst_conv snd_conv
    using a t1 t2 t3 t6 by simp
qed


lemma notin_plain:
  "list_all plain_command evs \<Longrightarrow> Log l msg \<notin> set evs"
  by (induction evs) (auto simp: plain_command_def is_exec_def)

lemma notin_exec:
  "list_all is_exec evs \<Longrightarrow> Log l msg \<notin> set evs"
  by (induction evs) (auto simp: is_exec_def)

lemma cleanup_step_success:
  assumes "cleanup_step sys self s = (Inr (), s')"
  shows "(let n = target_dataset (zfs_manager self) None @ ''@'' @ snapshot_tag self;
              step4 = Log INFO ''--> Step 4: All backups successful. Cleaning up ZFS snapshot.''
          in new_events s s' = [step4, Exec (list_snapshot_cmd n) 1]
           \<or> new_events s s' = [step4, Exec (list_snapshot_cmd n) 0,
                 Exec (zfs_destroy_cmd True n) 0, Exec (list_snapshot_cmd n) 1])"
  using assms
  by (auto simp add: cleanup_step_def seq_log destroy_snapshot_eq Let_def ran_def new_events_def
      split: if_splits)

text \<open>
  Claim C1, as amended. In every run in which the snapshot has been created and verified:
  at most one destroy command is run, and only after the restart and both loops of
  \<open>_orchestrate_dataset_backups\<close> have succeeded. If the restart, the archive loop or
  the check loop raises, no destroy command is run, the tag is reported as left and the
  exception is raised again. If the cleanup itself raises, the tag is reported as left
  and the exception is raised again. If the cleanup returns, the run returns, the tag is
  not reported as left, and the snapshot has been destroyed by one destroy command that
  exited 0, or was already reported absent.
\<close>

theorem snapshot_left_on_failure:
  assumes "stop_step sys s = (Inr (), s1)" and "snapshot_step sys self s1 = (Inr n, s2)"
    and "restart_step sys s2 = (r3, s3)"
    and "orchestrate_dataset_backups sys self s3 = (r4, s4)"
    and "cleanup_step sys self s4 = (r5, s5)"
  shows "(let r = fst (backup_all sys self s); s' = snd (backup_all sys self s);
              evs = new_events s s'; tag = snapshot_tag self;
              nm = target_dataset (zfs_manager self) None @ ''@'' @ tag
          in length (filter is_destroy evs) \<le> 1
           \<and> (filter is_destroy evs \<noteq> [] \<longrightarrow> r3 = Inr () \<and> r4 = Inr ())
           \<and> (\<forall>e. r3 = Inl e \<longrightarrow>
                 r = Inl e \<and> filter is_destroy evs = []
                 \<and> new_events s3 s' = [failure_marker, left_marker tag])
           \<and> (\<forall>e. r3 = Inr () \<and> r4 = Inl e \<longrightarrow>
                 r = Inl e \<and> filter is_destroy evs = []
                 \<and> new_events s4 s' = [failure_marker, left_marker tag])
           \<and> (\<forall>e. r3 = Inr () \<and> r4 = Inr () \<and> r5 = Inl e \<longrightarrow>
                 r = Inl e \<and> new_events s5 s' = [failure_marker, left_marker tag])
           \<and> (r3 = Inr () \<and> r4 = Inr () \<and> r5 = Inr () \<longrightarrow>
                 r = Inr () \<and> left_marker tag \<notin> set evs
                 \<and> (filter is_destroy evs = []
                      \<and> Exec (list_snapshot_cmd nm) 1 \<in> set (new_events s4 s5)
                    \<or> filter is_destroy evs = [Exec (zfs_destroy_cmd True nm) 0])))"
proof -
  note P = admits_plain_command
  note H = admits_host [OF P]
  obtain e1 where t1: "trace s1 = trace s @ e1" "filter is_destroy e1 = []"
    "left_marker (snapshot_tag self) \<notin> set e1"
    using stop_step_events [OF H, of sys s] assms(1)
    by (auto simp: destroy_plain notin_plain left_marker_def is_destroy_def)
  obtain e2 where t2: "trace s2 = trace s1 @ e2" "filter is_destroy e2 = []"
    "left_marker (snapshot_tag self) \<notin> set e2"
    using snapshot_step_events [OF H, of sys self s1] assms(2)
    by (auto simp: destroy_plain notin_plain left_marker_def is_destroy_def)
  obtain e3 where t3: "trace s3 = trace s2 @ e3" "filter is_destroy e3 = []"
    "left_marker (snapshot_tag self) \<notin> set e3"
    using restart_step_events [OF H, of sys s2] assms(3)
    by (auto simp: destroy_plain notin_plain left_marker_def is_destroy_def restart_marker_def)
  obtain e4 where t4: "trace s4 = trace s3 @ e4" "filter is_destroy e4 = []"
    "left_marker (snapshot_tag self) \<notin> set e4"
    using emits_at [OF emits_orchestrate [OF P], of sys self s3] assms(4)
    by (auto simp: destroy_plain notin_plain left_marker_def)
  obtain e5 where t5: "trace s5 = trace s4 @ e5" "length (filter is_destroy e5) \<le> 1"
    "left_marker (snapshot_tag self) \<notin> set e5"
    using cleanup_step_events [of sys self s4] assms(5)
    by (auto simp: notin_exec left_marker_def is_destroy_def)
  have ok: "r5 = Inr () \<Longrightarrow>
      filter is_destroy e5 = []
        \<and> Exec (list_snapshot_cmd (target_dataset (zfs_manager self) None @ ''@''
                   @ snapshot_tag self)) 1 \<in> set e5
      \<or> filter is_destroy e5 =
          [Exec (zfs_destroy_cmd True (target_dataset (zfs_manager self) None @ ''@''
                   @ snapshot_tag self)) 0]"
    using cleanup_step_success [of sys self s4 s5] assms(5) t5(1)
    by (auto simp add: Let_def new_events_def is_destroy_def list_snapshot_cmd_def
        zfs_destroy_cmd_def)
  have ne: "new_events s4 s5 = e5" using t5(1) by (simp add: new_events_def)
  note u = backup_all_unfold [OF assms]
  show ?thesis
    unfolding Let_def
    using t1 t2 t3 t4 t5 ok ne
    by (cases r3; cases r4; cases r5)
       (auto simp add: u backup_failed_eq log_eq new_events_def failure_marker_def
          left_marker_def is_destroy_def)
qed

section \<open>The archive loop\<close>

lemma for_each_stops:
  assumes "for_each body pre s = (Inr (), s1)" and "body d s1 = (Inl e, s2)"
  shows "for_each body (pre @ d # post) s = (Inl e, s2)"
  using assms
  by (induction pre arbitrary: s)
     (auto simp: seq_def bind_def ret_def split: prod.splits sum.splits)

lemma targets_borg_cmd [simp]:
  "targets rp (Exec (borg_cmd e a f) rc) = (map_of e ''BORG_REPO'' = Some rp)"
  by (simp add: targets_def borg_cmd_def)

lemma targets_info_init [simp]:
  "targets rp (Exec (borg_info_cmd e) rc) = (map_of e ''BORG_REPO'' = Some rp)"
  "targets rp (Exec (borg_init_cmd e) rc) = (map_of e ''BORG_REPO'' = Some rp)"
  by (simp_all add: targets_def borg_info_cmd_def borg_init_cmd_def)

lemma is_create_simps [simp]:
  "is_create (Exec (borg_info_cmd e) rc) = False"
  "is_create (Exec (borg_init_cmd e) rc) = False"
  "is_create (Exec (borg_prune_cmd e p) rc) = False"
  "is_create (Exec (borg_create_cmd e a b c d) rc) = True"
  by (simp_all add: is_create_def borg_info_cmd_def borg_init_cmd_def borg_prune_cmd_def
      borg_create_cmd_def borg_cmd_def)

lemma create_archive_eq:
  "create_archive sys m an sp cmpr excl s =
     (let c = borg_create_cmd (heap s ! borg_env m) an sp cmpr excl; rc = rc_of sys c (world s)
      in (if rc = 0 then Inr () else Inl (ErrorReturnCode c rc), ran sys c s))"
  by (simp add: create_archive_def execute_command_eq seq_def bind_def ret_def Let_def
      borg_create_cmd_def)

lemma prune_archives_eq:
  "prune_archives sys m policy s =
     (let c = borg_prune_cmd (heap s ! borg_env m) policy; rc = rc_of sys c (world s)
      in (if rc = 0 then Inr () else Inl (ErrorReturnCode c rc), ran sys c s))"
  by (simp add: prune_archives_def execute_command_eq seq_def bind_def ret_def Let_def
      borg_prune_cmd_def)


lemma initialize_if_needed_events:
  assumes "map_of (heap s ! borg_env m) ''BORG_REPO'' = Some rp"
  shows "\<exists>evs. trace (snd (initialize_if_needed sys m s)) = trace s @ evs
           \<and> heap (snd (initialize_if_needed sys m s)) = heap s
           \<and> list_all (\<lambda>ev. targets rp ev \<and> \<not> is_create ev) evs"
  using assms by (simp add: initialize_if_needed_eq Let_def ran_def)

lemma archive_then_prune:
  assumes "map_of (heap s ! borg_env m) ''BORG_REPO'' = Some rp"
  shows "\<exists>evs. trace (snd (seq (create_archive sys m an sp cmpr excl)
                              (prune_archives sys m policy) s)) = trace s @ evs
           \<and> list_all (targets rp) evs
           \<and> (fst (seq (create_archive sys m an sp cmpr excl)
                        (prune_archives sys m policy) s) = Inr () \<longrightarrow>
                evs = [Exec (borg_create_cmd (heap s ! borg_env m) an sp cmpr excl) 0,
                       Exec (borg_prune_cmd (heap s ! borg_env m) policy) 0])"
  using assms
  by (simp add: create_archive_eq prune_archives_eq seq_def bind_def Let_def ran_def
      borg_create_cmd_def borg_prune_cmd_def)

lemma backup_single_snapshot_events:
  "\<exists>evs. trace (snd (backup_single_snapshot sys self rp an sp s)) = trace s @ evs
     \<and> list_all (targets rp) evs
     \<and> (fst (backup_single_snapshot sys self rp an sp s) = Inr () \<longrightarrow>
          (\<exists>pre_evs. evs = pre_evs @
             [Exec (borg_create_cmd (repo_env self s rp) an sp (compression (config self))
                      (excludes_file (config self))) 0,
              Exec (borg_prune_cmd (repo_env self s rp) (prune_policy (config self))) 0]
            \<and> list_all (\<lambda>ev. targets rp ev \<and> \<not> is_create ev) pre_evs))"
proof -
  let ?E = "repo_env self s rp"
  let ?m = "\<lparr>repo_path = rp, borg_env = length (heap s)\<rparr>"
  let ?s1 = "s\<lparr>heap := heap s @ [?E]\<rparr>"
  let ?rest = "seq (create_archive sys ?m an sp (compression (config self))
                      (excludes_file (config self)))
                   (prune_archives sys ?m (prune_policy (config self)))"
  let ?missing = "filter (\<lambda>var. \<not> truthy (dict_get (heap s ! base_borg_env (config self)) var))
                    [''BORG_PASSPHRASE'', ''BORG_RSH'']"
  show ?thesis
  proof (cases "?missing = []")
    case False
    then have "backup_single_snapshot sys self rp an sp s
      = (Inl (ValueError
              (''BorgBackupRepoManager is missing required environment configuration: ''
               @ join '', '' ?missing)), s)"
      by (simp add: backup_single_snapshot_def BorgBackupRepoManager_init_eq bind_def Let_def)
    then show ?thesis by simp
  next
    case True
    have E: "map_of (heap ?s1 ! borg_env ?m) ''BORG_REPO'' = Some rp"
      by (simp add: repo_env_def map_of_dict_set)
    have unfold: "backup_single_snapshot sys self rp an sp s
        = seq (initialize_if_needed sys ?m) ?rest ?s1"
      using True
      by (simp add: backup_single_snapshot_def BorgBackupRepoManager_init_eq bind_def Let_def
          repo_env_def)
    obtain r2 s2 where i: "initialize_if_needed sys ?m ?s1 = (r2, s2)"
      by (cases "initialize_if_needed sys ?m ?s1")
    obtain e2 where t2: "trace s2 = trace s @ e2" "heap s2 = heap ?s1"
      "list_all (\<lambda>ev. targets rp ev \<and> \<not> is_create ev) e2"
      using initialize_if_needed_events [OF E, of sys] i by auto
    have e2t: "list_all (targets rp) e2"
      using t2(3) by (simp add: list_all_iff)
    show ?thesis
    proof (cases r2)
      case (Inl e)
      then have "backup_single_snapshot sys self rp an sp s = (Inl e, s2)"
        using unfold i by (simp add: seq_def bind_def)
      then show ?thesis using t2 e2t by simp
    next
      case (Inr u)
      then have u2: "backup_single_snapshot sys self rp an sp s = ?rest s2"
        using unfold i by (simp add: seq_def bind_def)
      have E2: "map_of (heap s2 ! borg_env ?m) ''BORG_REPO'' = Some rp"
        using E t2(2) by simp
      have h2: "heap s2 ! borg_env ?m = ?E" using t2(2) by simp
      obtain e3 where t3: "trace (snd (?rest s2)) = trace s2 @ e3" "list_all (targets rp) e3"
        "fst (?rest s2) = Inr () \<longrightarrow>
           e3 = [Exec (borg_create_cmd ?E an sp (compression (config self))
                         (excludes_file (config self))) 0,
                 Exec (borg_prune_cmd ?E (prune_policy (config self))) 0]"
        using archive_then_prune [OF E2, of sys an sp "compression (config self)"
            "excludes_file (config self)" "prune_policy (config self)"] h2
        by auto
      have "trace (snd (backup_single_snapshot sys self rp an sp s)) = trace s @ (e2 @ e3)"
        using u2 t2(1) t3(1) by simp
      moreover have "list_all (targets rp) (e2 @ e3)" using e2t t3(2) by simp
      moreover have "fst (backup_single_snapshot sys self rp an sp s) = Inr () \<longrightarrow>
          (\<exists>pre_evs. e2 @ e3 = pre_evs @
             [Exec (borg_create_cmd ?E an sp (compression (config self))
                      (excludes_file (config self))) 0,
              Exec (borg_prune_cmd ?E (prune_policy (config self))) 0]
            \<and> list_all (\<lambda>ev. targets rp ev \<and> \<not> is_create ev) pre_evs)"
        using u2 t3(3) t2(3) by auto
      ultimately show ?thesis by blast
    qed
  qed
qed

lemma try_except_reraise: "try_except m (\<lambda>e. raise e) = m"
  by (rule ext) (simp add: try_except_def raise_def split: prod.splits sum.splits)

lemma backup_single_dataset_eq:
  "backup_single_dataset sys self d s =
     backup_single_snapshot sys self (get_repo_path self d)
       (archive_prefix (config self) @ ''_'' @ snapshot_tag self @ ''_''
          @ fst (clock_now sys (world s)))
       (get_snapshot_path self d) (s\<lparr>world := snd (clock_now sys (world s))\<rparr>)"
  by (simp add: backup_single_dataset_def build_archive_name_def datetime_now_def bind_def
      ret_def try_except_reraise Let_def split: prod.splits)

lemma backup_single_dataset_events:
  "\<exists>evs. trace (snd (backup_single_dataset sys self d s)) = trace s @ evs
     \<and> list_all (targets (get_repo_path self d)) evs
     \<and> (fst (backup_single_dataset sys self d s) = Inr () \<longrightarrow>
          (\<exists>ev. filter is_create evs = [ev]
             \<and> archived (get_repo_path self d) (archive_prefix (config self)) (snapshot_tag self)
                 (get_snapshot_path self d) (compression (config self))
                 (excludes_file (config self)) ev))"
proof -
  let ?rp = "get_repo_path self d"
  let ?ts = "fst (clock_now sys (world s))"
  let ?an = "archive_prefix (config self) @ ''_'' @ snapshot_tag self @ ''_'' @ ?ts"
  let ?st = "s\<lparr>world := snd (clock_now sys (world s))\<rparr>"
  let ?E = "repo_env self ?st ?rp"
  let ?cr = "Exec (borg_create_cmd ?E ?an (get_snapshot_path self d) (compression (config self))
                     (excludes_file (config self))) 0"
  let ?pr = "Exec (borg_prune_cmd ?E (prune_policy (config self))) 0"
  obtain evs where t: "trace (snd (backup_single_dataset sys self d s)) = trace s @ evs"
    "list_all (targets ?rp) evs"
    "fst (backup_single_dataset sys self d s) = Inr () \<longrightarrow>
       (\<exists>pre_evs. evs = pre_evs @ [?cr, ?pr]
          \<and> list_all (\<lambda>ev. targets ?rp ev \<and> \<not> is_create ev) pre_evs)"
    using backup_single_snapshot_events [of sys self ?rp ?an "get_snapshot_path self d" ?st]
    by (auto simp: backup_single_dataset_eq)
  have a: "archived ?rp (archive_prefix (config self)) (snapshot_tag self)
             (get_snapshot_path self d) (compression (config self))
             (excludes_file (config self)) ?cr"
    unfolding archived_def
    by (rule exI [of _ ?E], rule exI [of _ ?ts]) (simp add: repo_env_def map_of_dict_set)
  have f: "\<And>pre_evs. list_all (\<lambda>ev. targets ?rp ev \<and> \<not> is_create ev) pre_evs
             \<Longrightarrow> filter is_create (pre_evs @ [?cr, ?pr]) = [?cr]"
    by (simp add: list_all_iff filter_empty_conv)
  have "fst (backup_single_dataset sys self d s) = Inr () \<longrightarrow>
          (\<exists>ev. filter is_create evs = [ev]
             \<and> archived ?rp (archive_prefix (config self)) (snapshot_tag self)
                 (get_snapshot_path self d) (compression (config self))
                 (excludes_file (config self)) ev)"
    using t(3) a f by blast
  with t(1,2) show ?thesis by blast
qed

lemma archive_loop_events:
  assumes "for_each (backup_single_dataset sys self) ds s = (Inr (), s')"
  shows "\<exists>evs. trace s' = trace s @ evs
           \<and> list_all2 (\<lambda>x. archived (get_repo_path self x) (archive_prefix (config self))
                   (snapshot_tag self) (get_snapshot_path self x) (compression (config self))
                   (excludes_file (config self)))
               ds (filter is_create evs)
           \<and> list_all (\<lambda>ev. \<exists>x\<in>set ds. targets (get_repo_path self x) ev) evs"
  using assms
proof (induction ds arbitrary: s)
  case Nil
  then show ?case by (simp add: ret_def)
next
  case (Cons x xs)
  obtain r1 s1 where b: "backup_single_dataset sys self x s = (r1, s1)"
    by (cases "backup_single_dataset sys self x s")
  with Cons.prems have r1: "r1 = Inr ()" and rest: "for_each (backup_single_dataset sys self) xs s1 = (Inr (), s')"
    by (auto simp: seq_def bind_def split: sum.splits)
  obtain e1 ev where t1: "trace s1 = trace s @ e1"
    "list_all (targets (get_repo_path self x)) e1" "filter is_create e1 = [ev]"
    "archived (get_repo_path self x) (archive_prefix (config self)) (snapshot_tag self)
       (get_snapshot_path self x) (compression (config self)) (excludes_file (config self)) ev"
    using backup_single_dataset_events [of sys self x s] b r1 by auto
  obtain e2 where t2: "trace s' = trace s1 @ e2"
    "list_all2 (\<lambda>x. archived (get_repo_path self x) (archive_prefix (config self))
        (snapshot_tag self) (get_snapshot_path self x) (compression (config self))
        (excludes_file (config self))) xs (filter is_create e2)"
    "list_all (\<lambda>ev. \<exists>x\<in>set xs. targets (get_repo_path self x) ev) e2"
    using Cons.IH [OF rest] by blast
  have "trace s' = trace s @ (e1 @ e2)" using t1(1) t2(1) by simp
  moreover have "list_all2 (\<lambda>x. archived (get_repo_path self x) (archive_prefix (config self))
        (snapshot_tag self) (get_snapshot_path self x) (compression (config self))
        (excludes_file (config self))) (x # xs) (filter is_create (e1 @ e2))"
    using t1(3,4) t2(2) by simp
  moreover have "list_all (\<lambda>ev. \<exists>y\<in>set (x # xs). targets (get_repo_path self y) ev) (e1 @ e2)"
    using t1(2) t2(3) by (auto simp: list_all_iff)
  ultimately show ?case by blast
qed

lemma get_datasets_eq:
  "get_datasets sys zm s =
     (let c = list_datasets_cmd (parent_dataset zm); rc = rc_of sys c (world s)
      in (if rc = 0
          then Inr (List.map_filter parse_dataset_line (snd (fst (sh_run sys c (world s)))))
          else Inl (ErrorReturnCode c rc), ran sys c s))"
  by (simp add: get_datasets_def zfs_eq bind_def ret_def Let_def list_datasets_cmd_def)

text \<open>
  Claim C7. The archive loop of \<open>_orchestrate_dataset_backups\<close> is fail-fast. In a run
  that has stopped the services, created the snapshot and restarted the services, let
  the enumeration yield the volumes \<open>pre @ d # post\<close>, let archiving succeed for the
  volumes \<open>pre\<close> and fail with \<open>e\<close> for the volume \<open>d\<close>. Then the loop, the
  orchestration and the whole run raise \<open>e\<close>, and the state in which the loop and the
  orchestration end is the state in which archiving \<open>d\<close> failed: nothing is run for the
  volumes \<open>post\<close> and no repository is checked; the run adds only the report of the
  failure. The archive creations that succeeded before are, in order, one for each
  volume of \<open>pre\<close>, in its repository; after them only the repository of \<open>d\<close> is
  addressed; and no snapshot is destroyed.
\<close>

theorem archive_loop_fail_fast:
  assumes "stop_step sys sA = (Inr (), sB)"
    and "snapshot_step sys self sB = (Inr n, sC)"
    and "restart_step sys sC = (Inr (), s0)"
    and "get_datasets sys (zfs_manager self) s0 = (Inr (pre @ d # post), s)"
    and "for_each (backup_single_dataset sys self) pre s = (Inr (), s1)"
    and "backup_single_dataset sys self d s1 = (Inl e, s2)"
  shows "for_each (backup_single_dataset sys self) (pre @ d # post) s = (Inl e, s2)
       \<and> orchestrate_dataset_backups sys self s0 = (Inl e, s2)
       \<and> backup_all sys self sA
           = (Inl e, s2\<lparr>trace := trace s2 @ [failure_marker, left_marker (snapshot_tag self)]\<rparr>)
       \<and> list_all2 (\<lambda>x. archived (get_repo_path self x) (archive_prefix (config self))
               (snapshot_tag self) (get_snapshot_path self x) (compression (config self))
               (excludes_file (config self)))
           pre (filter is_create (new_events s s1))
       \<and> list_all (targets (get_repo_path self d)) (new_events s1 s2)
       \<and> filter is_destroy (new_events sA (snd (backup_all sys self sA))) = []"
proof -
  have loop: "for_each (backup_single_dataset sys self) (pre @ d # post) s = (Inl e, s2)"
    using for_each_stops [OF assms(5,6)] .
  have orch: "orchestrate_dataset_backups sys self s0 = (Inl e, s2)"
    using assms(4) loop by (simp add: orchestrate_dataset_backups_def bind_def seq_def)
  have c: "cleanup_step sys self s2
             = (fst (cleanup_step sys self s2), snd (cleanup_step sys self s2))" by simp
  have run: "backup_all sys self sA
      = (Inl e, s2\<lparr>trace := trace s2 @ [failure_marker, left_marker (snapshot_tag self)]\<rparr>)"
    using backup_all_unfold [OF assms(1,2,3) orch c] by (simp add: backup_failed_eq)
  obtain e1 where t1: "trace s1 = trace s @ e1"
    "list_all2 (\<lambda>x. archived (get_repo_path self x) (archive_prefix (config self))
        (snapshot_tag self) (get_snapshot_path self x) (compression (config self))
        (excludes_file (config self))) pre (filter is_create e1)"
    using archive_loop_events [OF assms(5)] by blast
  have kept: "list_all2 (\<lambda>x. archived (get_repo_path self x) (archive_prefix (config self))
               (snapshot_tag self) (get_snapshot_path self x) (compression (config self))
               (excludes_file (config self)))
           pre (filter is_create (new_events s s1))"
    using t1 by (simp add: new_events_def)
  have own: "list_all (targets (get_repo_path self d)) (new_events s1 s2)"
    using backup_single_dataset_events [of sys self d s1] assms(6)
    by (auto simp: new_events_def)
  note P = admits_plain_command
  note H = admits_host [OF P]
  obtain a1 where u1: "trace sB = trace sA @ a1" "filter is_destroy a1 = []"
    using stop_step_events [OF H, of sys sA] assms(1)
    by (auto simp: destroy_plain is_destroy_def)
  obtain a2 where u2: "trace sC = trace sB @ a2" "filter is_destroy a2 = []"
    using snapshot_step_events [OF H, of sys self sB] assms(2)
    by (auto simp: destroy_plain is_destroy_def)
  obtain a3 where u3: "trace s0 = trace sC @ a3" "filter is_destroy a3 = []"
    using restart_step_events [OF H, of sys sC] assms(3)
    by (auto simp: destroy_plain is_destroy_def restart_marker_def)
  obtain a4 where u4: "trace s2 = trace s0 @ a4" "filter is_destroy a4 = []"
    using emits_at [OF emits_orchestrate [OF P], of sys self s0] orch
    by (auto simp: destroy_plain)
  have "new_events sA (snd (backup_all sys self sA))
          = a1 @ a2 @ a3 @ a4 @ [failure_marker, left_marker (snapshot_tag self)]"
    using run u1(1) u2(1) u3(1) u4(1) by (simp add: new_events_def)
  then have nod: "filter is_destroy (new_events sA (snd (backup_all sys self sA))) = []"
    using u1(2) u2(2) u3(2) u4(2)
    by (simp add: failure_marker_def left_marker_def is_destroy_def)
  show ?thesis using loop orch run kept own nod by blast
qed

section \<open>Runs on the simulated system\<close>

theorem restart_exactly_once_witness:
  "fst (stop_step (sim_system [(2, 1)] False) demo_state) = Inr ()
   \<and> count_list (new_events demo_state
                   (snd (backup_all (sim_system [(2, 1)] False) demo_orchestrator demo_state)))
        restart_marker = 1
   \<and> fst (backup_all (sim_system [(2, 1)] False) demo_orchestrator demo_state)
       = Inl (ErrorReturnCode (zfs_snapshot_cmd True ''pool/svcs@auto-backup_T'') 1)"
proof -
  let ?S = "sim_system [(2, 1)] False"
  let ?s1 = "snd (stop_step ?S demo_state)"
  let ?s2 = "snd (snapshot_step ?S demo_orchestrator ?s1)"
  have f1: "fst (stop_step ?S demo_state) = Inr ()" by code_simp
  have h: "stop_step ?S demo_state = (Inr (), ?s1)"
    using f1 by (simp add: prod_eq_iff)
  have f2: "fst (snapshot_step ?S demo_orchestrator ?s1)
              = Inl (ErrorReturnCode (zfs_snapshot_cmd True ''pool/svcs@auto-backup_T'') 1)"
    by code_simp
  have f3: "fst (restart_step ?S ?s2) = Inr ()" by code_simp
  from restart_exactly_once [OF h, of demo_orchestrator, unfolded Let_def]
  have c: "count_list (new_events demo_state (snd (backup_all ?S demo_orchestrator demo_state)))
             restart_marker = 1"
    and r: "\<forall>e. fst (snapshot_step ?S demo_orchestrator ?s1) = Inl e
                \<and> fst (restart_step ?S ?s2) = Inr ()
              \<longrightarrow> fst (backup_all ?S demo_orchestrator demo_state) = Inl e
                  \<and> new_events (snd (restart_step ?S ?s2))
                        (snd (backup_all ?S demo_orchestrator demo_state)) = [failure_marker]"
    by blast+
  from r f2 f3 have "fst (backup_all ?S demo_orchestrator demo_state)
      = Inl (ErrorReturnCode (zfs_snapshot_cmd True ''pool/svcs@auto-backup_T'') 1)"
    by blast
  with f1 c show ?thesis by blast
qed

theorem snapshot_left_on_failure_witness:
  "fst (stop_step (sim_system [(14, 2)] False) demo_state) = Inr ()
   \<and> fst (snapshot_step (sim_system [(14, 2)] False) demo_orchestrator
            (snd (stop_step (sim_system [(14, 2)] False) demo_state)))
       = Inr ''pool/svcs@auto-backup_T''
   \<and> (\<exists>c. fst (backup_all (sim_system [(14, 2)] False) demo_orchestrator demo_state)
          = Inl (ErrorReturnCode c 2))
   \<and> filter is_destroy (new_events demo_state
        (snd (backup_all (sim_system [(14, 2)] False) demo_orchestrator demo_state))) = []
   \<and> left_marker ''auto-backup_T''
       \<in> set (trace (snd (backup_all (sim_system [(14, 2)] False) demo_orchestrator
                          demo_state)))"
proof -
  let ?S = "sim_system [(14, 2)] False"
  let ?s1 = "snd (stop_step ?S demo_state)"
  let ?s2 = "snd (snapshot_step ?S demo_orchestrator ?s1)"
  let ?s3 = "snd (restart_step ?S ?s2)"
  let ?s4 = "snd (orchestrate_dataset_backups ?S demo_orchestrator ?s3)"
  have f1: "fst (stop_step ?S demo_state) = Inr ()" by code_simp
  have f2: "fst (snapshot_step ?S demo_orchestrator ?s1) = Inr ''pool/svcs@auto-backup_T''"
    by code_simp
  have f3: "fst (restart_step ?S ?s2) = Inr ()" by code_simp
  have "(case fst (orchestrate_dataset_backups ?S demo_orchestrator ?s3) of
           Inl (ErrorReturnCode c rc) \<Rightarrow> rc = 2 | _ \<Rightarrow> False)"
    by code_simp
  then obtain c where f4': "fst (orchestrate_dataset_backups ?S demo_orchestrator ?s3)
              = Inl (ErrorReturnCode c 2)"
    by (auto split: sum.splits exn.splits)
  have h1: "stop_step ?S demo_state = (Inr (), ?s1)" using f1 by (simp add: prod_eq_iff)
  have h2: "snapshot_step ?S demo_orchestrator ?s1 = (Inr ''pool/svcs@auto-backup_T'', ?s2)"
    using f2 by (simp add: prod_eq_iff)
  have h3: "restart_step ?S ?s2 = (Inr (), ?s3)" using f3 by (simp add: prod_eq_iff)
  have h4: "orchestrate_dataset_backups ?S demo_orchestrator ?s3
              = (Inl (ErrorReturnCode c 2), ?s4)"
    using f4' by (simp add: prod_eq_iff)
  have h5: "cleanup_step ?S demo_orchestrator ?s4
              = (fst (cleanup_step ?S demo_orchestrator ?s4),
                 snd (cleanup_step ?S demo_orchestrator ?s4))" by simp
  have tg: "snapshot_tag demo_orchestrator = ''auto-backup_T''"
    by (simp add: demo_orchestrator_def)
  from snapshot_left_on_failure [OF h1 h2 h3 h4 h5, unfolded Let_def tg]
  have r: "fst (backup_all ?S demo_orchestrator demo_state) = Inl (ErrorReturnCode c 2)"
    and d: "filter is_destroy (new_events demo_state
              (snd (backup_all ?S demo_orchestrator demo_state))) = []"
    and l: "new_events ?s4 (snd (backup_all ?S demo_orchestrator demo_state))
              = [failure_marker, left_marker ''auto-backup_T'']"
    by blast+
  have "left_marker ''auto-backup_T''
          \<in> set (drop (length (trace ?s4))
                   (trace (snd (backup_all ?S demo_orchestrator demo_state))))"
    using l by (simp add: new_events_def)
  then have m: "left_marker ''auto-backup_T''
          \<in> set (trace (snd (backup_all ?S demo_orchestrator demo_state)))"
    by (rule in_set_dropD)
  show ?thesis using f1 f2 r d m by blast
qed

text \<open>
  Claim C1 as stated fails: the run below raises after the snapshot was created and
  verified, namely when the probe that verifies the destruction fails, and by then the
  pipeline has destroyed the snapshot; the snapshot is gone, and the run still reports
  its tag as left.
\<close>

theorem cleanup_failure_after_destroy:
  "fst (backup_all (sim_system [(20, 2)] False) demo_orchestrator demo_state)
     = Inl (ErrorReturnCode (list_snapshot_cmd ''pool/svcs@auto-backup_T'') 2)
   \<and> Exec (zfs_snapshot_cmd True ''pool/svcs@auto-backup_T'') 0
       \<in> set (trace (snd (backup_all (sim_system [(20, 2)] False) demo_orchestrator
                          demo_state)))
   \<and> Exec (zfs_destroy_cmd True ''pool/svcs@auto-backup_T'') 0
       \<in> set (trace (snd (backup_all (sim_system [(20, 2)] False) demo_orchestrator
                          demo_state)))
   \<and> ''pool/svcs@auto-backup_T''
       \<notin> set (sim_snapshots (world (snd (backup_all (sim_system [(20, 2)] False)
                                          demo_orchestrator demo_state))))
   \<and> last (trace (snd (backup_all (sim_system [(20, 2)] False) demo_orchestrator
                        demo_state)))
       = left_marker ''auto-backup_T''"
  by code_simp

theorem archive_loop_fail_fast_witness:
  "fst (backup_all (sim_system [(14, 2)] False) demo_orchestrator three_volumes)
     = Inl (ErrorReturnCode
              (borg_create_cmd [(''BORG_PASSPHRASE'', ''pw''), (''BORG_RSH'', ''ssh -i key''),
                                (''BORG_REPO'', ''/backup/pool_svcs_b'')]
                 ''pre_auto-backup_T_T2b'' ''/mnt/b/.zfs/snapshot/auto-backup_T'' ''zstd''
                 ''/etc/excludes'') 2)
   \<and> sim_repos (world (snd (backup_all (sim_system [(14, 2)] False) demo_orchestrator
                               three_volumes)))
       = [(''/backup/pool_svcs_a'', [''pre_auto-backup_T_T2a'']), (''/backup/pool_svcs_b'', [])]
   \<and> sim_snapshots (world (snd (backup_all (sim_system [(14, 2)] False) demo_orchestrator
                                   three_volumes)))
       = [''pool/svcs@auto-backup_T'']
   \<and> filter is_destroy (new_events three_volumes
        (snd (backup_all (sim_system [(14, 2)] False) demo_orchestrator three_volumes))) = []"
proof -
  let ?S = "sim_system [(14, 2)] False"
  let ?O = "demo_orchestrator"
  let ?a = "\<lparr>name = ''pool/svcs/a'', mount_point = ''/mnt/a''\<rparr>"
  let ?b = "\<lparr>name = ''pool/svcs/b'', mount_point = ''/mnt/b''\<rparr>"
  let ?c = "\<lparr>name = ''pool/svcs/c'', mount_point = ''/mnt/c''\<rparr>"
  let ?e = "ErrorReturnCode
              (borg_create_cmd [(''BORG_PASSPHRASE'', ''pw''), (''BORG_RSH'', ''ssh -i key''),
                                (''BORG_REPO'', ''/backup/pool_svcs_b'')]
                 ''pre_auto-backup_T_T2b'' ''/mnt/b/.zfs/snapshot/auto-backup_T'' ''zstd''
                 ''/etc/excludes'') 2"
  let ?sB = "snd (stop_step ?S three_volumes)"
  let ?sC = "snd (snapshot_step ?S ?O ?sB)"
  let ?sD = "snd (restart_step ?S ?sC)"
  let ?sE = "snd (get_datasets ?S (zfs_manager ?O) ?sD)"
  let ?s1 = "snd (for_each (backup_single_dataset ?S ?O) [?a] ?sE)"
  let ?s2 = "snd (backup_single_dataset ?S ?O ?b ?s1)"
  have f1: "fst (stop_step ?S three_volumes) = Inr ()" by code_simp
  have f2: "fst (snapshot_step ?S ?O ?sB) = Inr ''pool/svcs@auto-backup_T''" by code_simp
  have f3: "fst (restart_step ?S ?sC) = Inr ()" by code_simp
  have f4: "fst (get_datasets ?S (zfs_manager ?O) ?sD) = Inr ([?a] @ ?b # [?c])" by code_simp
  have f5: "fst (for_each (backup_single_dataset ?S ?O) [?a] ?sE) = Inr ()" by code_simp
  have f6: "fst (backup_single_dataset ?S ?O ?b ?s1) = Inl ?e" by code_simp
  have h1: "stop_step ?S three_volumes = (Inr (), ?sB)" using f1 by (simp add: prod_eq_iff)
  have h2: "snapshot_step ?S ?O ?sB = (Inr ''pool/svcs@auto-backup_T'', ?sC)"
    using f2 by (simp add: prod_eq_iff)
  have h3: "restart_step ?S ?sC = (Inr (), ?sD)" using f3 by (simp add: prod_eq_iff)
  have h4: "get_datasets ?S (zfs_manager ?O) ?sD = (Inr ([?a] @ ?b # [?c]), ?sE)"
    using f4 by (simp only: prod_eq_iff fst_conv snd_conv simp_thms)
  have h5: "for_each (backup_single_dataset ?S ?O) [?a] ?sE = (Inr (), ?s1)"
    using f5 by (simp only: prod_eq_iff fst_conv snd_conv simp_thms)
  have h6: "backup_single_dataset ?S ?O ?b ?s1 = (Inl ?e, ?s2)"
    using f6 by (simp only: prod_eq_iff fst_conv snd_conv simp_thms)
  have w1: "sim_repos (world ?s2)
      = [(''/backup/pool_svcs_a'', [''pre_auto-backup_T_T2a'']), (''/backup/pool_svcs_b'', [])]"
    by code_simp
  have w2: "sim_snapshots (world ?s2) = [''pool/svcs@auto-backup_T'']" by code_simp
  from archive_loop_fail_fast [OF h1 h2 h3 h4 h5 h6]
  have run: "backup_all ?S ?O three_volumes
      = (Inl ?e, ?s2\<lparr>trace := trace ?s2 @ [failure_marker, left_marker (snapshot_tag ?O)]\<rparr>)"
    and nod: "filter is_destroy (new_events three_volumes
                (snd (backup_all ?S ?O three_volumes))) = []"
    by blast+
  have r: "fst (backup_all ?S ?O three_volumes) = Inl ?e"
    by (simp only: run fst_conv)
  have w: "world (snd (backup_all ?S ?O three_volumes)) = world ?s2"
    by (simp only: run snd_conv) simp
  show ?thesis using r w w1 w2 nod by (simp only: simp_thms)
qed

end
